theory Spec2Isabelle
  imports Main
begin

section \<open>Python strings\<close>

text \<open>
  The script \<^verbatim>\<open>persitent_usb.py\<close> works on Python \<^verbatim>\<open>str\<close> values. They are modelled as
  \<^typ>\<open>string\<close>, one \<^typ>\<open>char\<close> per code point, so the model covers the code points below 256.
  The whitespace characters of that range, as \<^verbatim>\<open>str.isspace\<close> classifies them, are
  \<^verbatim>\<open>\t \n \x0b \x0c \r \x1c \x1d \x1e \x1f\<close>, the space, \<^verbatim>\<open>\x85\<close> and \<^verbatim>\<open>\xa0\<close>.
\<close>

definition is_space :: "char \<Rightarrow> bool" where
  "is_space c = (c \<in> {CHR 0x09, CHR 0x0A, CHR 0x0B, CHR 0x0C, CHR 0x0D,
                       CHR 0x1C, CHR 0x1D, CHR 0x1E, CHR 0x1F, CHR 0x20, CHR 0x85, CHR 0xA0})"

text \<open>\<^verbatim>\<open>s.strip()\<close>\<close>

definition strip :: "string \<Rightarrow> string" where
  "strip s = rev (dropWhile is_space (rev (dropWhile is_space s)))"

text \<open>\<^verbatim>\<open>s.split(sep)\<close> for a one-character separator: empty fields are kept.\<close>

fun split_on :: "char \<Rightarrow> string \<Rightarrow> string list" where
  "split_on sep [] = [[]]"
| "split_on sep (c # cs) =
     (if c = sep then [] # split_on sep cs
      else (case split_on sep cs of
              [] \<Rightarrow> [[c]]
            | w # ws \<Rightarrow> (c # w) # ws))"

text \<open>\<^verbatim>\<open>s.split()\<close>: the maximal runs of non-whitespace characters.\<close>

fun split_ws_from :: "string \<Rightarrow> string \<Rightarrow> string list" where
  "split_ws_from cur [] = (if cur = [] then [] else [rev cur])"
| "split_ws_from cur (c # cs) =
     (if is_space c
      then (if cur = [] then split_ws_from [] cs else rev cur # split_ws_from [] cs)
      else split_ws_from (c # cur) cs)"

definition split_ws :: "string \<Rightarrow> string list" where
  "split_ws s = split_ws_from [] s"

text \<open>\<^verbatim>\<open>s.startswith(p)\<close> and \<^verbatim>\<open>s.startswith((p1, p2, ...))\<close>\<close>

definition startswith :: "string \<Rightarrow> string \<Rightarrow> bool" where
  "startswith s p = (take (length p) s = p)"

definition startswith_any :: "string \<Rightarrow> string list \<Rightarrow> bool" where
  "startswith_any s ps = list_ex (startswith s) ps"

text \<open>\<^verbatim>\<open>sub in s\<close>\<close>

fun contains :: "string \<Rightarrow> string \<Rightarrow> bool" where
  "contains [] sub = (sub = [])"
| "contains (c # cs) sub = (startswith (c # cs) sub \<or> contains cs sub)"

text \<open>
  \<^verbatim>\<open>s.replace(old, new)\<close>: the non-overlapping occurrences of \<^verbatim>\<open>old\<close> are replaced from left to
  right; with an empty \<^verbatim>\<open>old\<close>, \<^verbatim>\<open>new\<close> is inserted before every character and at the end.
\<close>

function replace_from :: "string \<Rightarrow> string \<Rightarrow> string \<Rightarrow> string" where
  "replace_from old new s =
     (if s = [] then []
      else if old \<noteq> [] \<and> startswith s old then new @ replace_from old new (drop (length old) s)
      else hd s # replace_from old new (tl s))"
  by pat_completeness auto
termination
  by (relation "measure (\<lambda>(old, new, s). length s)") auto

definition replace :: "string \<Rightarrow> string \<Rightarrow> string \<Rightarrow> string" where
  "replace s old new =
     (if old = [] then new @ concat (map (\<lambda>c. c # new) s) else replace_from old new s)"

text \<open>\<^verbatim>\<open>os.path.basename(p)\<close> of \<^verbatim>\<open>posixpath\<close>: what follows the last slash.\<close>

definition basename :: "string \<Rightarrow> string" where
  "basename p = rev (takeWhile (\<lambda>c. c \<noteq> CHR ''/'') (rev p))"

text \<open>The single quote, which a string literal of the theory cannot hold.\<close>

definition quote :: char where
  "quote = CHR 0x27"

text \<open>\<^verbatim>\<open>sep.join(xs)\<close>\<close>

fun join :: "string \<Rightarrow> string list \<Rightarrow> string" where
  "join sep [] = []"
| "join sep [x] = x"
| "join sep (x # y # ys) = x @ sep @ join sep (y # ys)"

text \<open>\<^verbatim>\<open>str(n)\<close> of an integer, as an f-string interpolates it.\<close>

definition digit_char :: "nat \<Rightarrow> char" where
  "digit_char d = char_of (48 + d)"

function str_nat :: "nat \<Rightarrow> string" where
  "str_nat n = (if n < 10 then [digit_char n] else str_nat (n div 10) @ [digit_char (n mod 10)])"
  by pat_completeness auto
termination
  by (relation "measure (\<lambda>n. n)") auto

definition str_int :: "int \<Rightarrow> string" where
  "str_int i = (if i < 0 then CHR ''-'' # str_nat (nat (- i)) else str_nat (nat i))"

section \<open>The outside world\<close>

text \<open>
  Every effect of the script goes through a primitive of the Python runtime: a child
  process, a query of the file system, a sleep, a line read from standard input. The world
  the script runs in is a parameter: a type \<open>'w\<close> of world states and, for each primitive,
  a function giving its outcome and the next world. Nothing is assumed about them, so a
  theorem for every environment covers every behaviour of the external tools, including the
  changes other processes make between two calls. Asynchronous signals (a
  \<^verbatim>\<open>KeyboardInterrupt\<close> delivered while the script runs) and the text the script prints are
  not modelled.
\<close>

text \<open>A child process is started from a shell line or from an argument vector.\<close>

datatype command = Shell string | Argv "string list"

text \<open>
  How a child process ends: it exits with a return code, its standard output and its
  standard error; it is still running when the timeout expires; or it cannot be started
  (an \<^verbatim>\<open>OSError\<close>, or any other exception of the \<^verbatim>\<open>subprocess\<close> module).
\<close>

datatype proc_outcome = Exited int string string | TimedOut | SpawnError string

text \<open>The file types \<^verbatim>\<open>os.stat\<close> tells apart by \<^verbatim>\<open>st_mode\<close>.\<close>

datatype file_type = RegularFile | Directory | CharDevice | BlockDevice | Fifo | Socket

text \<open>
  An event is one call of a primitive together with its outcome. Where a primitive can
  raise, \<open>Inl msg\<close> (or \<open>Some msg\<close> for one returning nothing) is the exception. Durations
  of \<^verbatim>\<open>time.sleep\<close> are in milliseconds, timeouts in seconds.
\<close>

datatype event =
    EvProc command "nat option" proc_outcome
  | EvExists string bool
  | EvIsFile string bool
  | EvStat string "string + file_type"
  | EvGetSize string "string + nat"
  | EvMakeDirs string "string option"
  | EvChmod string nat "string option"
  | EvWrite string string "string option"
  | EvRead string "string + string"
  | EvGetEUid nat
  | EvWhich string bool
  | EvSleep nat
  | EvInput "string option"

record 'w env =
  proc :: "command \<Rightarrow> nat option \<Rightarrow> 'w \<Rightarrow> proc_outcome \<times> 'w"
  path_exists :: "string \<Rightarrow> 'w \<Rightarrow> bool \<times> 'w"
  path_isfile :: "string \<Rightarrow> 'w \<Rightarrow> bool \<times> 'w"
  stat :: "string \<Rightarrow> 'w \<Rightarrow> (string + file_type) \<times> 'w"
  getsize :: "string \<Rightarrow> 'w \<Rightarrow> (string + nat) \<times> 'w"
  makedirs :: "string \<Rightarrow> 'w \<Rightarrow> string option \<times> 'w"
  chmod :: "string \<Rightarrow> nat \<Rightarrow> 'w \<Rightarrow> string option \<times> 'w"
  write_file :: "string \<Rightarrow> string \<Rightarrow> 'w \<Rightarrow> string option \<times> 'w"
  read_file :: "string \<Rightarrow> 'w \<Rightarrow> (string + string) \<times> 'w"
  geteuid :: "'w \<Rightarrow> nat \<times> 'w"
  which :: "string \<Rightarrow> 'w \<Rightarrow> bool \<times> 'w"
  sleep :: "nat \<Rightarrow> 'w \<Rightarrow> 'w"
  read_line :: "'w \<Rightarrow> string option \<times> 'w"
  set_order :: "string list \<Rightarrow> string list"

text \<open>The state of a run: the world, and the events so far, oldest first.\<close>

record 'w state =
  world :: 'w
  trace :: "event list"

section \<open>Exceptions and control flow\<close>

text \<open>
  The exceptions of a run. \<open>Exception msg\<close> stands for every subclass of \<^verbatim>\<open>Exception\<close>
  other than the two \<^verbatim>\<open>run_cmd\<close> names; \<open>SystemExit\<close> and \<open>KeyboardInterrupt\<close> derive from
  \<^verbatim>\<open>BaseException\<close> only, so \<^verbatim>\<open>except Exception\<close> lets them through.
\<close>

datatype exn =
    TimeoutExpired
  | CalledProcessError int string
  | Exception string
  | SystemExit int
  | KeyboardInterrupt

definition is_Exception :: "exn \<Rightarrow> bool" where
  "is_Exception e = (case e of SystemExit n \<Rightarrow> False | KeyboardInterrupt \<Rightarrow> False | _ \<Rightarrow> True)"

text \<open>A piece of Python: from a state to a value or a raised exception, and the next state.\<close>

type_synonym ('a, 'w) py = "'w state \<Rightarrow> (exn + 'a) \<times> 'w state"

definition ret :: "'a \<Rightarrow> ('a, 'w) py" where
  "ret x = (\<lambda>s. (Inr x, s))"

definition raise :: "exn \<Rightarrow> ('a, 'w) py" where
  "raise e = (\<lambda>s. (Inl e, s))"

text \<open>Sequencing: an exception of the first part skips the second.\<close>

definition bnd :: "('a, 'w) py \<Rightarrow> ('a \<Rightarrow> ('b, 'w) py) \<Rightarrow> ('b, 'w) py" where
  "bnd m f = (\<lambda>s. case m s of (Inl e, s') \<Rightarrow> (Inl e, s') | (Inr x, s') \<Rightarrow> f x s')"

text \<open>
  \<^verbatim>\<open>try: m except ...: h\<close>. The handler says which exceptions it catches: \<open>h e = None\<close> when
  no clause matches \<open>e\<close>, which then propagates.
\<close>

definition try_except :: "('a, 'w) py \<Rightarrow> (exn \<Rightarrow> ('a, 'w) py option) \<Rightarrow> ('a, 'w) py" where
  "try_except m h =
     (\<lambda>s. case m s of
             (Inl e, s') \<Rightarrow> (case h e of None \<Rightarrow> (Inl e, s') | Some k \<Rightarrow> k s')
           | (Inr x, s') \<Rightarrow> (Inr x, s'))"

text \<open>\<^verbatim>\<open>except Exception as e: k e\<close> and the bare \<^verbatim>\<open>except: k\<close>\<close>

definition except_Exception :: "(exn \<Rightarrow> ('a, 'w) py) \<Rightarrow> exn \<Rightarrow> ('a, 'w) py option" where
  "except_Exception k e = (if is_Exception e then Some (k e) else None)"

definition except_all :: "('a, 'w) py \<Rightarrow> exn \<Rightarrow> ('a, 'w) py option" where
  "except_all k e = Some k"

text \<open>
  A \<^verbatim>\<open>for\<close> loop whose body may \<^verbatim>\<open>return\<close>: the body yields \<open>Some v\<close> to return \<open>v\<close> from
  the enclosing function and \<open>None\<close> to go on with the next element.
\<close>

fun for_loop :: "'i list \<Rightarrow> ('i \<Rightarrow> ('r option, 'w) py) \<Rightarrow> ('r option, 'w) py" where
  "for_loop [] body = ret None"
| "for_loop (i # rest) body =
     (\<lambda>s. case body i s of
             (Inl e, s') \<Rightarrow> (Inl e, s')
           | (Inr (Some v), s') \<Rightarrow> (Inr (Some v), s')
           | (Inr None, s') \<Rightarrow> for_loop rest body s')"

text \<open>A \<^verbatim>\<open>for\<close> loop without \<^verbatim>\<open>return\<close>.\<close>

fun for_each :: "'i list \<Rightarrow> ('i \<Rightarrow> (unit, 'w) py) \<Rightarrow> (unit, 'w) py" where
  "for_each [] body = ret ()"
| "for_each (i # rest) body =
     (\<lambda>s. case body i s of
             (Inl e, s') \<Rightarrow> (Inl e, s')
           | (Inr u, s') \<Rightarrow> for_each rest body s')"

text \<open>\<^verbatim>\<open>range(n)\<close>\<close>

definition range :: "int \<Rightarrow> int list" where
  "range n = [0..n - 1]"

section \<open>The primitives\<close>

text \<open>Each primitive asks the environment, moves to the next world and records the event.\<close>

definition record_event :: "event \<Rightarrow> 'w \<Rightarrow> 'w state \<Rightarrow> 'w state" where
  "record_event ev w s = \<lparr>world = w, trace = trace s @ [ev]\<rparr>"

text \<open>
  \<^verbatim>\<open>subprocess.run(cmd, check=check, timeout=timeout)\<close>: the return code, standard output
  and standard error of the child; \<^verbatim>\<open>CalledProcessError\<close> when \<^verbatim>\<open>check\<close> is set and the
  return code is not zero, \<^verbatim>\<open>TimeoutExpired\<close> at the timeout. An environment that answers
  \<open>TimedOut\<close> to a call without timeout is read as raising too: the model then has more
  runs than Python, never fewer.
\<close>

definition subprocess_run ::
  "'w env \<Rightarrow> command \<Rightarrow> bool \<Rightarrow> nat option \<Rightarrow> (int \<times> string \<times> string, 'w) py" where
  "subprocess_run env cmd check timeout =
     (\<lambda>s. case proc env cmd timeout (world s) of
             (out, w) \<Rightarrow>
               (case out of
                  Exited rc so se \<Rightarrow>
                    if check \<and> rc \<noteq> 0 then Inl (CalledProcessError rc se)
                    else Inr (rc, so, se)
                | TimedOut \<Rightarrow> Inl TimeoutExpired
                | SpawnError msg \<Rightarrow> Inl (Exception msg),
                record_event (EvProc cmd timeout out) w s))"

text \<open>\<^verbatim>\<open>subprocess.check_output(cmd, timeout=timeout)\<close>: the standard output, checked.\<close>

definition check_output :: "'w env \<Rightarrow> command \<Rightarrow> nat option \<Rightarrow> (string, 'w) py" where
  "check_output env cmd timeout =
     bnd (subprocess_run env cmd True timeout) (\<lambda>(rc, so, se). ret so)"

definition os_path_exists :: "'w env \<Rightarrow> string \<Rightarrow> (bool, 'w) py" where
  "os_path_exists env p =
     (\<lambda>s. case path_exists env p (world s) of
             (b, w) \<Rightarrow> (Inr b, record_event (EvExists p b) w s))"

definition os_path_isfile :: "'w env \<Rightarrow> string \<Rightarrow> (bool, 'w) py" where
  "os_path_isfile env p =
     (\<lambda>s. case path_isfile env p (world s) of
             (b, w) \<Rightarrow> (Inr b, record_event (EvIsFile p b) w s))"

text \<open>\<^verbatim>\<open>os.stat(p).st_mode\<close>, as far as the script reads it: the file type.\<close>

definition os_stat :: "'w env \<Rightarrow> string \<Rightarrow> (file_type, 'w) py" where
  "os_stat env p =
     (\<lambda>s. case stat env p (world s) of
             (r, w) \<Rightarrow>
               (case r of Inl msg \<Rightarrow> Inl (Exception msg) | Inr ft \<Rightarrow> Inr ft,
                record_event (EvStat p r) w s))"

definition os_path_getsize :: "'w env \<Rightarrow> string \<Rightarrow> (nat, 'w) py" where
  "os_path_getsize env p =
     (\<lambda>s. case getsize env p (world s) of
             (r, w) \<Rightarrow>
               (case r of Inl msg \<Rightarrow> Inl (Exception msg) | Inr n \<Rightarrow> Inr n,
                record_event (EvGetSize p r) w s))"

text \<open>\<^verbatim>\<open>os.makedirs(p, exist_ok=True)\<close>\<close>

definition os_makedirs :: "'w env \<Rightarrow> string \<Rightarrow> (unit, 'w) py" where
  "os_makedirs env p =
     (\<lambda>s. case makedirs env p (world s) of
             (r, w) \<Rightarrow>
               (case r of Some msg \<Rightarrow> Inl (Exception msg) | None \<Rightarrow> Inr (),
                record_event (EvMakeDirs p r) w s))"

definition os_chmod :: "'w env \<Rightarrow> string \<Rightarrow> nat \<Rightarrow> (unit, 'w) py" where
  "os_chmod env p mode =
     (\<lambda>s. case chmod env p mode (world s) of
             (r, w) \<Rightarrow>
               (case r of Some msg \<Rightarrow> Inl (Exception msg) | None \<Rightarrow> Inr (),
                record_event (EvChmod p mode r) w s))"

text \<open>\<^verbatim>\<open>with open(p, "w") as f: f.write(content)\<close>\<close>

definition write_text :: "'w env \<Rightarrow> string \<Rightarrow> string \<Rightarrow> (unit, 'w) py" where
  "write_text env p content =
     (\<lambda>s. case write_file env p content (world s) of
             (r, w) \<Rightarrow>
               (case r of Some msg \<Rightarrow> Inl (Exception msg) | None \<Rightarrow> Inr (),
                record_event (EvWrite p content r) w s))"

text \<open>\<^verbatim>\<open>with open(p, "r") as f: f.read()\<close>\<close>

definition read_text :: "'w env \<Rightarrow> string \<Rightarrow> (string, 'w) py" where
  "read_text env p =
     (\<lambda>s. case read_file env p (world s) of
             (r, w) \<Rightarrow>
               (case r of Inl msg \<Rightarrow> Inl (Exception msg) | Inr txt \<Rightarrow> Inr txt,
                record_event (EvRead p r) w s))"

definition os_geteuid :: "'w env \<Rightarrow> (nat, 'w) py" where
  "os_geteuid env =
     (\<lambda>s. case geteuid env (world s) of
             (uid, w) \<Rightarrow> (Inr uid, record_event (EvGetEUid uid) w s))"

text \<open>\<^verbatim>\<open>shutil.which(tool) is not None\<close>\<close>

definition shutil_which :: "'w env \<Rightarrow> string \<Rightarrow> (bool, 'w) py" where
  "shutil_which env tool =
     (\<lambda>s. case which env tool (world s) of
             (b, w) \<Rightarrow> (Inr b, record_event (EvWhich tool b) w s))"

definition time_sleep :: "'w env \<Rightarrow> nat \<Rightarrow> (unit, 'w) py" where
  "time_sleep env ms = (\<lambda>s. (Inr (), record_event (EvSleep ms) (sleep env ms (world s)) s))"

text \<open>\<^verbatim>\<open>input()\<close>: a line without its newline, or \<^verbatim>\<open>EOFError\<close> at the end of the input.\<close>

definition py_input :: "'w env \<Rightarrow> (string, 'w) py" where
  "py_input env =
     (\<lambda>s. case read_line env (world s) of
             (r, w) \<Rightarrow>
               (case r of None \<Rightarrow> Inl (Exception ''EOFError'') | Some ln \<Rightarrow> Inr ln,
                record_event (EvInput r) w s))"

text \<open>\<^verbatim>\<open>sys.exit(code)\<close>\<close>

definition sys_exit :: "int \<Rightarrow> ('a, 'w) py" where
  "sys_exit code = raise (SystemExit code)"

section \<open>Constants of the script\<close>

definition ISO_MOUNT :: string where "ISO_MOUNT = ''/mnt/iso_temp''"
definition USB_BOOT :: string where "USB_BOOT = ''/mnt/usb_boot''"
definition USB_PERSIST :: string where "USB_PERSIST = ''/mnt/usb_persist''"
definition ESP_MOUNT :: string where "ESP_MOUNT = ''/mnt/esp_temp''"

definition BOOT_SIZE_GB :: int where "BOOT_SIZE_GB = 4"
definition ESP_SIZE_MB :: int where "ESP_SIZE_MB = 512"

definition MOUNT_TIMEOUT :: nat where "MOUNT_TIMEOUT = 10"
definition SYNC_TIMEOUT :: nat where "SYNC_TIMEOUT = 30"

section \<open>The process runner\<close>

text \<open>
  What \<^verbatim>\<open>run_cmd\<close> returns: the stripped output of a capturing call, \<^verbatim>\<open>True\<close>, \<^verbatim>\<open>False\<close>
  or \<^verbatim>\<open>None\<close>; and which of them count as true in a condition.
\<close>

datatype result = RStr string | RTrue | RFalse | RNone

definition truthy :: "result \<Rightarrow> bool" where
  "truthy r = (case r of RStr out \<Rightarrow> out \<noteq> [] | RTrue \<Rightarrow> True | RFalse \<Rightarrow> False | RNone \<Rightarrow> False)"

text \<open>
  \<^verbatim>\<open>run_cmd(cmd, check, capture, ignore_error, timeout=timeout)\<close>. No caller passes
  \<^verbatim>\<open>shell\<close>, so the command is always a shell line. The three \<^verbatim>\<open>except\<close> clauses are tried
  in the order of the source.
\<close>

definition run_cmd ::
  "'w env \<Rightarrow> string \<Rightarrow> bool \<Rightarrow> bool \<Rightarrow> bool \<Rightarrow> nat option \<Rightarrow> (result, 'w) py" where
  "run_cmd env cmd check capture ignore_error timeout =
     try_except
       (if capture
        then bnd (check_output env (Shell cmd) timeout) (\<lambda>out. ret (RStr (strip out)))
        else bnd (subprocess_run env (Shell cmd) check timeout) (\<lambda>res. ret RTrue))
       (\<lambda>e. case e of
               TimeoutExpired \<Rightarrow> Some (ret (if ignore_error then RNone else RFalse))
             | CalledProcessError rc se \<Rightarrow> Some (if ignore_error then ret RNone else ret RFalse)
             | Exception msg \<Rightarrow> Some (ret RFalse)
             | _ \<Rightarrow> None)"

section \<open>The mount manager\<close>

text \<open>
  \<^verbatim>\<open>is_mounted(path)\<close>: \<^verbatim>\<open>mountpoint -q\<close>, and when that call raises, a search of the mount
  table; when this raises too, \<^verbatim>\<open>False\<close>. Both \<^verbatim>\<open>except\<close> clauses are bare.
\<close>

definition is_mounted :: "'w env \<Rightarrow> string \<Rightarrow> (bool, 'w) py" where
  "is_mounted env path =
     try_except
       (bnd (subprocess_run env (Argv [''mountpoint'', ''-q'', path]) False (Some 5))
          (\<lambda>(rc, so, se). ret (rc = 0)))
       (except_all
          (try_except
             (bnd (subprocess_run env
                     (Shell (''mount | grep -q '' @ [quote] @ '' '' @ path @ '' '' @ [quote]))
                     False (Some 5))
                (\<lambda>(rc, so, se). ret (rc = 0)))
             (except_all (ret False))))"

text \<open>One pass of the loop of \<^verbatim>\<open>force_unmount\<close>, for the attempt number \<open>attempt\<close> (from 0).\<close>

definition force_unmount_attempt ::
  "'w env \<Rightarrow> string \<Rightarrow> int \<Rightarrow> int \<Rightarrow> (bool option, 'w) py" where
  "force_unmount_attempt env path max_attempts attempt =
     bnd (is_mounted env path) (\<lambda>mounted.
     if \<not> mounted then ret (Some True)
     else
       bnd (if attempt > 0
            then bnd (run_cmd env (''fuser -km '' @ path @ '' 2>/dev/null'')
                        False False True (Some 5))
                   (\<lambda>r. time_sleep env 500)
            else ret ()) (\<lambda>u.
       bnd (run_cmd env (''umount '' @ path @ '' 2>/dev/null'') False False True (Some 10))
         (\<lambda>res.
       bnd (time_sleep env 500) (\<lambda>u.
       bnd (is_mounted env path) (\<lambda>mounted.
       if \<not> mounted then ret (Some True)
       else if attempt = max_attempts - 1
       then bnd (run_cmd env (''umount -l '' @ path @ '' 2>/dev/null'')
                   False False True (Some 5))
              (\<lambda>r. bnd (time_sleep env 1000) (\<lambda>u. ret None))
       else ret None)))))"

text \<open>\<^verbatim>\<open>force_unmount(path, max_attempts)\<close>; the default of \<^verbatim>\<open>max_attempts\<close> is 3.\<close>

definition force_unmount :: "'w env \<Rightarrow> string \<Rightarrow> int \<Rightarrow> (bool, 'w) py" where
  "force_unmount env path max_attempts =
     bnd (os_path_exists env path) (\<lambda>ex.
     if \<not> ex then ret True
     else
       bnd (for_loop (range max_attempts) (force_unmount_attempt env path max_attempts))
         (\<lambda>returned.
       case returned of
         Some v \<Rightarrow> ret v
       | None \<Rightarrow>
           bnd (is_mounted env path) (\<lambda>mounted.
           if \<not> mounted then ret True else ret False)))"

text \<open>Statements in sequence, the value of the first dropped.\<close>

definition thn :: "('a, 'w) py \<Rightarrow> ('b, 'w) py \<Rightarrow> ('b, 'w) py" where
  "thn m k = bnd m (\<lambda>x. k)"

text \<open>\<^verbatim>\<open>a and b\<close> on booleans: \<open>b\<close> runs only when \<open>a\<close> is true.\<close>

definition py_and :: "(bool, 'w) py \<Rightarrow> (bool, 'w) py \<Rightarrow> (bool, 'w) py" where
  "py_and a b = bnd a (\<lambda>x. if x then b else ret False)"

text \<open>The mount points \<^verbatim>\<open>unmount_all\<close> sweeps.\<close>

definition all_mounts :: "string list" where
  "all_mounts = [ISO_MOUNT, USB_BOOT, USB_PERSIST, ESP_MOUNT, ''/mnt/iso'', ''/mnt/usb'', ''/mnt/esp'']"

text \<open>
  The \<^verbatim>\<open>try\<close> block of \<^verbatim>\<open>unmount_all\<close>: the partitions \<^verbatim>\<open>lsblk\<close> lists under the device are
  unmounted lazily. \<^verbatim>\<open>partitions.split\<close> on \<^verbatim>\<open>True\<close> would be an \<^verbatim>\<open>AttributeError\<close>.
\<close>

definition unmount_partitions :: "'w env \<Rightarrow> string \<Rightarrow> (unit, 'w) py" where
  "unmount_partitions env device =
     bnd (run_cmd env (''lsblk -ln -o NAME '' @ device @ '' 2>/dev/null | tail -n +2'')
            True True True (Some 10)) (\<lambda>partitions.
     if truthy partitions
     then (case partitions of
             RStr out \<Rightarrow>
               for_each (split_on CHR 0x0A out) (\<lambda>part.
                 if strip part \<noteq> []
                 then thn (run_cmd env (''umount -l '' @ (''/dev/'' @ strip part) @ '' 2>/dev/null'')
                             False False True (Some 5)) (ret ())
                 else ret ())
           | _ \<Rightarrow> raise (Exception ''AttributeError''))
     else ret ())"

text \<open>\<^verbatim>\<open>unmount_all(device)\<close>\<close>

definition unmount_all :: "'w env \<Rightarrow> string \<Rightarrow> (unit, 'w) py" where
  "unmount_all env device =
     thn (for_each all_mounts (\<lambda>mount.
            bnd (os_path_exists env mount) (\<lambda>ex.
            if ex
            then thn (run_cmd env (''fuser -km '' @ mount @ '' 2>/dev/null'')
                        False False True (Some 5)) (ret ())
            else ret ())))
    (thn (time_sleep env 1000)
    (thn (for_each all_mounts (\<lambda>mount_point.
            bnd (os_path_exists env mount_point) (\<lambda>ex.
            if ex then thn (force_unmount env mount_point 3) (ret ()) else ret ())))
    (thn (try_except (unmount_partitions env device) (except_all (ret ())))
    (thn (run_cmd env (''umount -l '' @ device @ ''* 2>/dev/null'') False False True (Some 5))
         (time_sleep env 1000)))))"

text \<open>\<^verbatim>\<open>prepare_mount_points()\<close>; the mode \<^verbatim>\<open>0o755\<close> is 493.\<close>

definition prepare_mount_points :: "'w env \<Rightarrow> (unit, 'w) py" where
  "prepare_mount_points env =
     for_each [ISO_MOUNT, USB_BOOT, USB_PERSIST, ESP_MOUNT] (\<lambda>path.
       try_except (thn (os_makedirs env path) (os_chmod env path 493))
         (except_Exception (\<lambda>e. ret ())))"

section \<open>The partition planner\<close>

text \<open>\<^verbatim>\<open>get_partition_names(device)\<close>\<close>

definition get_partition_names :: "string \<Rightarrow> string \<times> string \<times> string" where
  "get_partition_names device =
     (let base_name = basename device in
      if startswith_any base_name [''mmcblk'', ''nvme'', ''loop'']
      then (device @ ''p1'', device @ ''p2'', device @ ''p3'')
      else (device @ ''1'', device @ ''2'', device @ ''3''))"

text \<open>One pass of the polling loop of \<^verbatim>\<open>wait_for_partitions\<close>.\<close>

definition wait_step ::
  "'w env \<Rightarrow> string \<Rightarrow> string \<Rightarrow> string \<Rightarrow> string \<Rightarrow> int \<Rightarrow> (bool option, 'w) py" where
  "wait_step env device part1 part2 part3 i =
     bnd (py_and (os_path_exists env part1)
            (py_and (os_path_exists env part2) (os_path_exists env part3))) (\<lambda>found.
     if found then thn (time_sleep env 2000) (ret (Some True))
     else
       thn (time_sleep env 1000)
         (if i mod 3 = 0
          then thn (run_cmd env (''partprobe '' @ device @ '' 2>/dev/null'')
                      True False True (Some 5)) (ret None)
          else ret None))"

text \<open>\<^verbatim>\<open>wait_for_partitions(device, timeout)\<close>; the default of \<^verbatim>\<open>timeout\<close> is 15.\<close>

definition wait_for_partitions :: "'w env \<Rightarrow> string \<Rightarrow> int \<Rightarrow> (bool, 'w) py" where
  "wait_for_partitions env device timeout =
     thn (run_cmd env (''partprobe '' @ device @ '' 2>/dev/null'') True False True (Some 10))
    (thn (run_cmd env (''blockdev --rereadpt '' @ device @ '' 2>/dev/null'')
            True False True (Some 10))
     (case get_partition_names device of
        (part1, part2, part3) \<Rightarrow>
          bnd (for_loop (range timeout) (wait_step env device part1 part2 part3)) (\<lambda>returned.
          case returned of
            Some v \<Rightarrow> ret v
          | None \<Rightarrow> py_and (os_path_exists env part1) (os_path_exists env part2))))"

text \<open>Formatting one partition: a defensive unmount, a pause, then the \<^verbatim>\<open>mkfs\<close> line.\<close>

definition format_partition :: "'w env \<Rightarrow> string \<Rightarrow> string \<Rightarrow> nat \<Rightarrow> (unit, 'w) py" where
  "format_partition env part mkfs timeout =
     thn (run_cmd env (''umount '' @ part @ '' 2>/dev/null'') False False True (Some 5))
    (thn (time_sleep env 1000)
    (thn (run_cmd env (mkfs @ part) True False False (Some timeout)) (ret ())))"

text \<open>\<^verbatim>\<open>create_partitions(device)\<close>\<close>

definition create_partitions :: "'w env \<Rightarrow> string \<Rightarrow> (unit, 'w) py" where
  "create_partitions env device =
     thn (run_cmd env (''wipefs -af '' @ device @ '' 2>/dev/null'') True False True (Some 15))
    (thn (run_cmd env
            (''dd if=/dev/zero of='' @ device @ '' bs=1M count=10 conv=notrunc 2>/dev/null'')
            True False True (Some 15))
    (thn (time_sleep env 2000)
    (thn (run_cmd env (''parted -s '' @ device @ '' mklabel gpt'') True False False (Some 20))
    (thn (run_cmd env
            (''parted -s -a optimal '' @ device @ '' mkpart primary fat32 1MiB ''
               @ str_int ESP_SIZE_MB @ ''MiB'')
            True False False (Some 20))
    (thn (run_cmd env (''parted -s '' @ device @ '' set 1 esp on'') True False False (Some 10))
    (let boot_end = ESP_SIZE_MB + BOOT_SIZE_GB * 1024 in
     thn (run_cmd env
            (''parted -s -a optimal '' @ device @ '' mkpart primary fat32 ''
               @ str_int ESP_SIZE_MB @ ''MiB '' @ str_int boot_end @ ''MiB'')
            True False False (Some 20))
    (thn (run_cmd env (''parted -s '' @ device @ '' set 2 boot on'') True False False (Some 10))
    (thn (run_cmd env
            (''parted -s -a optimal '' @ device @ '' mkpart primary btrfs ''
               @ str_int boot_end @ ''MiB 100%'')
            True False False (Some 20))
    (thn (wait_for_partitions env device 15)
    (case get_partition_names device of
       (part1, part2, part3) \<Rightarrow>
         thn (format_partition env part1 ''mkfs.vfat -F 32 -n EFI '' 30)
        (thn (format_partition env part2 ''mkfs.vfat -F 32 -n BOOT '' 30)
        (thn (format_partition env part3 ''mkfs.btrfs -f -L persistence -m single -d single '' 60)
             (time_sleep env 2000)))))))))))))"

section \<open>The stages of the pipeline\<close>

text \<open>\<^verbatim>\<open>subprocess.run("sync", shell=True, timeout=SYNC_TIMEOUT)\<close>, outside \<^verbatim>\<open>run_cmd\<close>.\<close>

definition sync :: "'w env \<Rightarrow> (unit, 'w) py" where
  "sync env = thn (subprocess_run env (Shell ''sync'') False (Some SYNC_TIMEOUT)) (ret ())"

text \<open>\<^verbatim>\<open>setup_btrfs_subvolumes(device)\<close>\<close>

definition setup_btrfs_subvolumes :: "'w env \<Rightarrow> string \<Rightarrow> (bool, 'w) py" where
  "setup_btrfs_subvolumes env device =
     (case get_partition_names device of
        (part1, part2, part3) \<Rightarrow>
          thn (prepare_mount_points env)
         (thn (force_unmount env USB_PERSIST 3)
         (thn (time_sleep env 1000)
         (bnd (run_cmd env (''mount -o compress=zstd,noatime '' @ part3 @ '' '' @ USB_PERSIST)
                 True False False (Some 15)) (\<lambda>mounted.
          if \<not> truthy mounted then ret False
          else
            thn (for_each [''@rootfs'', ''@home'', ''@snapshots'', ''@work''] (\<lambda>subvol.
                   thn (run_cmd env (''btrfs subvolume create '' @ USB_PERSIST @ ''/'' @ subvol)
                          True False True (Some 15)) (ret ())))
           (thn (try_except
                   (thn (os_makedirs env (USB_PERSIST @ ''/@rootfs/upper''))
                   (thn (os_makedirs env (USB_PERSIST @ ''/@rootfs/work''))
                        (os_makedirs env (USB_PERSIST @ ''/@home/user''))))
                   (except_Exception (\<lambda>e. ret ())))
           (thn (force_unmount env USB_PERSIST 3)
                (ret True))))))))"

text \<open>The \<^verbatim>\<open>rsync\<close> line of \<^verbatim>\<open>copy_iso_contents\<close>.\<close>

definition rsync_cmd :: string where
  "rsync_cmd =
     ''rsync -avh --no-perms --no-owner --no-group '' @
     ''--modify-window=1 '' @
     ''--exclude='' @ [quote] @ ''lost+found'' @ [quote] @ '' '' @
     ''--info=progress2 '' @
     ISO_MOUNT @ ''/ '' @ USB_BOOT @ ''/ 2>&1''"

text \<open>\<^verbatim>\<open>copy_iso_contents(iso_path, device)\<close>\<close>

definition copy_iso_contents :: "'w env \<Rightarrow> string \<Rightarrow> string \<Rightarrow> (bool, 'w) py" where
  "copy_iso_contents env iso_path device =
     thn (prepare_mount_points env)
     (case get_partition_names device of
        (part1, part2, part3) \<Rightarrow>
          thn (force_unmount env ISO_MOUNT 3)
         (bnd (run_cmd env (''mount -o loop,ro '' @ iso_path @ '' '' @ ISO_MOUNT)
                 True False False (Some 15)) (\<lambda>iso_mounted.
          if \<not> truthy iso_mounted then ret False
          else
            thn (force_unmount env USB_BOOT 3)
           (thn (time_sleep env 1000)
           (bnd (run_cmd env (''mount '' @ part2 @ '' '' @ USB_BOOT) True False False (Some 15))
              (\<lambda>boot_mounted.
            if \<not> truthy boot_mounted
            then thn (force_unmount env ISO_MOUNT 3) (ret False)
            else
              thn (run_cmd env rsync_cmd False False False None)
             (thn (sync env)
             (thn (time_sleep env 2000)
             (thn (force_unmount env USB_BOOT 3)
             (thn (force_unmount env ISO_MOUNT 3)
                  (ret True)))))))))))"

text \<open>
  The \<^verbatim>\<open>try\<close> block of \<^verbatim>\<open>configure_persistence\<close> that patches the GRUB configuration: the
  boot parameters are added after every \<^verbatim>\<open>boot=live\<close>, unless the file already mentions
  \<^verbatim>\<open>persistence\<close>.
\<close>

definition patch_grub_cfg :: "'w env \<Rightarrow> string \<Rightarrow> string \<Rightarrow> (unit, 'w) py" where
  "patch_grub_cfg env grub_cfg boot_params =
     bnd (read_text env grub_cfg) (\<lambda>grub_content.
     if \<not> contains grub_content ''persistence''
     then write_text env grub_cfg
            (replace grub_content ''boot=live'' (''boot=live '' @ boot_params))
     else ret ())"

text \<open>\<^verbatim>\<open>configure_persistence(device)\<close>; \<^verbatim>\<open>os.path.join\<close> puts a slash between its parts.\<close>

definition configure_persistence :: "'w env \<Rightarrow> string \<Rightarrow> (bool, 'w) py" where
  "configure_persistence env device =
     (case get_partition_names device of
        (part1, part2, part3) \<Rightarrow>
          thn (force_unmount env USB_BOOT 3)
         (thn (time_sleep env 1000)
         (bnd (run_cmd env (''mount '' @ part2 @ '' '' @ USB_BOOT) True False False (Some 15))
            (\<lambda>mounted.
          if \<not> truthy mounted then ret False
          else
            (let persistence_conf = USB_BOOT @ ''/'' @ ''persistence.conf'';
                 boot_params = ''persistence persistence-storage=btrfs,ext4'';
                 grub_cfg = USB_BOOT @ ''/'' @ ''boot/grub/grub.cfg''
             in
               thn (try_except (write_text env persistence_conf (''/ union'' @ [CHR 0x0A]))
                      (except_Exception (\<lambda>e. ret ())))
              (thn (bnd (os_path_exists env grub_cfg) (\<lambda>ex.
                    if ex
                    then try_except (patch_grub_cfg env grub_cfg boot_params)
                           (except_Exception (\<lambda>e. ret ()))
                    else ret ()))
              (thn (sync env)
              (thn (time_sleep env 1000)
              (thn (force_unmount env USB_BOOT 3)
                   (ret True))))))))))"

text \<open>\<^verbatim>\<open>install_bootloader(device)\<close>\<close>

definition install_bootloader :: "'w env \<Rightarrow> string \<Rightarrow> (bool, 'w) py" where
  "install_bootloader env device =
     (case get_partition_names device of
        (part1, part2, part3) \<Rightarrow>
          thn (force_unmount env USB_BOOT 3)
         (thn (time_sleep env 1000)
         (bnd (run_cmd env (''mount '' @ part2 @ '' '' @ USB_BOOT) True False False (Some 15))
            (\<lambda>mounted.
          if \<not> truthy mounted then ret False
          else
            thn (run_cmd env
                   (''grub-install --target=i386-pc --boot-directory='' @ USB_BOOT @ ''/boot ''
                      @ device)
                   False False True (Some 60))
           (thn (prepare_mount_points env)
           (thn (force_unmount env ESP_MOUNT 3)
           (thn (bnd (run_cmd env (''mount '' @ part1 @ '' '' @ ESP_MOUNT)
                        False False True (Some 15)) (\<lambda>esp_mounted.
                 if truthy esp_mounted
                 then thn (run_cmd env
                             (''grub-install --target=x86_64-efi --efi-directory='' @ ESP_MOUNT
                                @ '' '' @ ''--boot-directory='' @ USB_BOOT
                                @ ''/boot --removable --recheck '' @ device)
                             False False True (Some 60))
                     (thn (force_unmount env ESP_MOUNT 3) (ret ()))
                 else ret ()))
           (thn (force_unmount env USB_BOOT 3)
                (ret True)))))))))"

text \<open>
  \<^verbatim>\<open>create_readme(device)\<close>. The text of the README holds characters outside the modelled
  range, so it is a parameter.
\<close>

definition create_readme :: "'w env \<Rightarrow> string \<Rightarrow> string \<Rightarrow> (unit, 'w) py" where
  "create_readme env readme_text device =
     (case get_partition_names device of
        (part1, part2, part3) \<Rightarrow>
          thn (force_unmount env USB_BOOT 3)
         (bnd (run_cmd env (''mount '' @ part2 @ '' '' @ USB_BOOT) False False True (Some 15))
            (\<lambda>mounted.
          if truthy mounted
          then
            (let readme_path = USB_BOOT @ ''/'' @ ''README.txt'' in
             thn (try_except (write_text env readme_path readme_text)
                    (except_Exception (\<lambda>e. ret ())))
            (thn (force_unmount env USB_BOOT 3) (ret ())))
          else ret ())))"

section \<open>Validation and reporting\<close>

definition critical_mounts :: "string list" where
  "critical_mounts = [''/'', ''/boot'', ''/boot/efi'', ''/home'', ''/usr'', ''/var'']"

text \<open>
  The loop of the safety check over the lines of the \<^verbatim>\<open>lsblk\<close> output: a line whose second
  field is a critical mount point makes \<^verbatim>\<open>validate_device\<close> return \<^verbatim>\<open>False\<close>.
\<close>

definition safety_line :: "string \<Rightarrow> (bool option, 'w) py" where
  "safety_line line =
     (let parts = split_ws line in
      if length parts \<ge> 2
      then (let mountpoint = parts ! 1 in
            if mountpoint \<in> set critical_mounts then ret (Some False) else ret None)
      else ret None)"

text \<open>The \<^verbatim>\<open>try\<close> block of the safety check; \<open>Some False\<close> is its \<^verbatim>\<open>return False\<close>.\<close>

definition safety_check :: "'w env \<Rightarrow> string \<Rightarrow> (bool option, 'w) py" where
  "safety_check env device =
     bnd (run_cmd env (''lsblk -ln -o NAME,MOUNTPOINT '' @ device) True True True (Some 10))
       (\<lambda>lsblk_output.
     if truthy lsblk_output
     then (case lsblk_output of
             RStr out \<Rightarrow> for_loop (split_on CHR 0x0A out) safety_line
           | _ \<Rightarrow> raise (Exception ''AttributeError''))
     else ret None)"

text \<open>\<^verbatim>\<open>validate_device(device)\<close>\<close>

definition validate_device :: "'w env \<Rightarrow> string \<Rightarrow> (bool, 'w) py" where
  "validate_device env device =
     bnd (os_path_exists env device) (\<lambda>ex.
     if \<not> ex then ret False
     else
       bnd (try_except
              (bnd (os_stat env device) (\<lambda>mode.
               if mode \<noteq> BlockDevice then ret (Some False) else ret None))
              (except_Exception (\<lambda>e. ret (Some False)))) (\<lambda>returned.
       case returned of
         Some v \<Rightarrow> ret v
       | None \<Rightarrow>
           bnd (try_except (safety_check env device) (except_Exception (\<lambda>e. ret None)))
             (\<lambda>returned.
           case returned of
             Some v \<Rightarrow> ret v
           | None \<Rightarrow> ret True)))"

text \<open>
  \<^verbatim>\<open>validate_iso(iso_path)\<close>. The size is only printed; reading it can raise, and nothing
  catches that.
\<close>

definition validate_iso :: "'w env \<Rightarrow> string \<Rightarrow> (bool, 'w) py" where
  "validate_iso env iso_path =
     bnd (os_path_exists env iso_path) (\<lambda>ex.
     if \<not> ex then ret False
     else
       bnd (os_path_isfile env iso_path) (\<lambda>isf.
       if \<not> isf then ret False
       else thn (os_path_getsize env iso_path) (ret True)))"

text \<open>
  \<^verbatim>\<open>show_device_info(device)\<close>: two capturing calls whose outputs are only printed, each
  in a \<^verbatim>\<open>try\<close> with a bare \<^verbatim>\<open>except\<close>.
\<close>

definition show_device_info :: "'w env \<Rightarrow> string \<Rightarrow> (unit, 'w) py" where
  "show_device_info env device =
     thn (try_except
            (thn (run_cmd env (''blockdev --getsize64 '' @ device) True True False (Some 10))
               (ret ()))
            (except_all (ret ())))
         (try_except
            (thn (run_cmd env (''lsblk -o NAME,SIZE,TYPE,MOUNTPOINT '' @ device)
                    True True False (Some 10))
               (ret ()))
            (except_all (ret ())))"

text \<open>\<^verbatim>\<open>check_root()\<close>\<close>

definition check_root :: "'w env \<Rightarrow> (unit, 'w) py" where
  "check_root env = bnd (os_geteuid env) (\<lambda>uid. if uid \<noteq> 0 then sys_exit 1 else ret ())"

text \<open>The tools \<^verbatim>\<open>check_requirements\<close> looks for, each with its package, in the order of the source.\<close>

definition required :: "(string \<times> string) list" where
  "required =
     [(''parted'', ''parted''),
      (''mkfs.vfat'', ''dosfstools''),
      (''mkfs.btrfs'', ''btrfs-progs''),
      (''btrfs'', ''btrfs-progs''),
      (''rsync'', ''rsync''),
      (''grub-install'', ''grub2-common grub-efi-amd64-bin grub-pc-bin''),
      (''mount'', ''mount''),
      (''lsblk'', ''util-linux''),
      (''blockdev'', ''util-linux'')]"

text \<open>The first loop of \<^verbatim>\<open>check_requirements\<close>, with its two accumulators.\<close>

fun find_missing ::
  "'w env \<Rightarrow> (string \<times> string) list \<Rightarrow> string list \<Rightarrow> string list
     \<Rightarrow> (string list \<times> string list, 'w) py" where
  "find_missing env [] missing missing_packages = ret (missing, missing_packages)"
| "find_missing env ((tool, package) # rest) missing missing_packages =
     bnd (shutil_which env tool) (\<lambda>found.
     if \<not> found
     then find_missing env rest (missing @ [tool]) (missing_packages @ split_ws package)
     else find_missing env rest missing missing_packages)"

text \<open>
  \<^verbatim>\<open>check_requirements()\<close>. The packages are joined in the iteration order of a Python set,
  which the environment chooses.
\<close>

definition check_requirements :: "'w env \<Rightarrow> (unit, 'w) py" where
  "check_requirements env =
     bnd (find_missing env required [] []) (\<lambda>(missing, missing_packages).
     if missing \<noteq> []
     then
       (let packages = join '' '' (set_order env missing_packages) in
        thn (run_cmd env ''apt-get update -qq'' True False True (Some 120))
       (thn (run_cmd env (''apt-get install -y '' @ packages) True False False (Some 300))
       (bnd (shutil_which env ''mkfs.btrfs'') (\<lambda>found.
        if \<not> found then sys_exit 1 else ret ()))))
     else ret ())"

section \<open>The main program\<close>

text \<open>The body of the \<^verbatim>\<open>try\<close> block of \<^verbatim>\<open>main\<close>: the stages in order.\<close>

definition pipeline :: "'w env \<Rightarrow> string \<Rightarrow> string \<Rightarrow> string \<Rightarrow> (unit, 'w) py" where
  "pipeline env readme_text iso_path device =
     thn (check_requirements env)
    (thn (unmount_all env device)
    (thn (create_partitions env device)
    (thn (setup_btrfs_subvolumes env device)
    (bnd (copy_iso_contents env iso_path device) (\<lambda>copied.
     if \<not> copied then raise (Exception ''Failed to copy ISO'')
     else
       bnd (configure_persistence env device) (\<lambda>configured.
       if \<not> configured then raise (Exception ''Failed to configure persistence'')
       else
         thn (install_bootloader env device)
        (thn (create_readme env readme_text device)
        (thn (unmount_all env device)
             (sync env)))))))))"

text \<open>
  \<^verbatim>\<open>main()\<close>, with \<^verbatim>\<open>sys.argv\<close> as \<open>argv\<close>. The two handlers of the \<^verbatim>\<open>try\<close> block clean up
  and exit with 1.
\<close>

definition main :: "'w env \<Rightarrow> string \<Rightarrow> string list \<Rightarrow> (unit, 'w) py" where
  "main env readme_text argv =
     (if length argv \<noteq> 3 then sys_exit 1
      else
        (let iso_path = argv ! 1; device = argv ! 2 in
         thn (check_root env)
        (bnd (validate_iso env iso_path) (\<lambda>iso_ok.
         if \<not> iso_ok then sys_exit 1
         else
           bnd (validate_device env device) (\<lambda>device_ok.
           if \<not> device_ok then sys_exit 1
           else
             thn (show_device_info env device)
            (bnd (py_input env) (\<lambda>answer.
             if strip answer \<noteq> ''YES'' then sys_exit 0
             else
               try_except (pipeline env readme_text iso_path device)
                 (\<lambda>e. case e of
                         KeyboardInterrupt \<Rightarrow> Some (thn (unmount_all env device) (sys_exit 1))
                       | _ \<Rightarrow>
                         if is_Exception e
                         then Some (thn (unmount_all env device) (sys_exit 1))
                         else None))))))))"

text \<open>
  The exit status of the process: 0 when \<^verbatim>\<open>main\<close> returns, the code of a \<^verbatim>\<open>SystemExit\<close>,
  and 1 for any other exception that nothing caught.
\<close>

definition exit_status :: "(exn + unit) \<Rightarrow> int" where
  "exit_status r = (case r of Inr u \<Rightarrow> 0 | Inl (SystemExit code) \<Rightarrow> code | Inl e \<Rightarrow> 1)"

section \<open>Concrete environments\<close>

text \<open>
  An environment in which nothing goes wrong: every path exists and is a block device,
  every shell line exits with 0 and prints nothing, \<^verbatim>\<open>mountpoint -q\<close> exits with 1 (nothing
  is mounted), the user is root and answers \<^verbatim>\<open>YES\<close>. It never changes the world, so it fits
  every type of worlds; the examples below vary single fields of it.
\<close>

definition calm :: "'w env" where
  "calm =
     \<lparr>proc = (\<lambda>c t w. (case c of Argv a \<Rightarrow> Exited 1 [] [] | Shell cmd \<Rightarrow> Exited 0 [] [], w)),
      path_exists = (\<lambda>p w. (True, w)),
      path_isfile = (\<lambda>p w. (True, w)),
      stat = (\<lambda>p w. (Inr BlockDevice, w)),
      getsize = (\<lambda>p w. (Inr 3000, w)),
      makedirs = (\<lambda>p w. (None, w)),
      chmod = (\<lambda>p m w. (None, w)),
      write_file = (\<lambda>p c w. (None, w)),
      read_file = (\<lambda>p w. (Inr [], w)),
      geteuid = (\<lambda>w. (0, w)),
      which = (\<lambda>p w. (True, w)),
      sleep = (\<lambda>ms w. w),
      read_line = (\<lambda>w. (Some ''YES'', w)),
      set_order = remdups\<rparr>"

text \<open>The state before the first event, for a world without content.\<close>

definition start :: "unit state" where
  "start = \<lparr>world = (), trace = []\<rparr>"

section \<open>Vocabulary of the statements\<close>

text \<open>
  A line of \<^verbatim>\<open>lsblk -ln -o NAME,MOUNTPOINT\<close> reports a critical mount when its second field
  is one of the protected mount points.
\<close>

definition critical_line :: "string \<Rightarrow> bool" where
  "critical_line line =
     (case split_ws line of
        name # mountpoint # rest \<Rightarrow> mountpoint \<in> set critical_mounts
      | _ \<Rightarrow> False)"

text \<open>
  The outcome of the \<^verbatim>\<open>lsblk\<close> call reports a critical mount when the call exits with 0
  and a line of its stripped output does.
\<close>

definition reports_critical :: "proc_outcome \<Rightarrow> bool" where
  "reports_critical out =
     (case out of
        Exited rc so se \<Rightarrow> rc = 0 \<and> list_ex critical_line (split_on CHR 0x0A (strip so))
      | _ \<Rightarrow> False)"

text \<open>
  The kinds of events. A shell line is classified by the program it starts with; the
  line \<^verbatim>\<open>mount | grep -q\<close> of \<^verbatim>\<open>is_mounted\<close> only reads the mount table and counts as a
  query, as do \<^verbatim>\<open>mountpoint -q\<close>, \<^verbatim>\<open>lsblk\<close> and \<^verbatim>\<open>blockdev --getsize64\<close>.
\<close>

datatype kind =
    Query | Wait | Prompt | Kill | Unmount | Mount | Rescan | Wipe | Partition | Format
  | Subvolume | Copy | Flush | Bootloader | Install | MakeDir | WriteFile | Other

definition kind_of_shell :: "string \<Rightarrow> kind" where
  "kind_of_shell c =
     (if startswith c ''mount | grep -q '' then Query
      else if startswith c ''mount '' then Mount
      else if startswith c ''umount '' then Unmount
      else if startswith c ''fuser -km '' then Kill
      else if startswith c ''lsblk '' then Query
      else if startswith c ''blockdev --getsize64 '' then Query
      else if startswith c ''blockdev --rereadpt '' then Rescan
      else if startswith c ''partprobe '' then Rescan
      else if startswith c ''wipefs '' then Wipe
      else if startswith c ''dd '' then Wipe
      else if startswith c ''parted '' then Partition
      else if startswith c ''mkfs.'' then Format
      else if startswith c ''btrfs subvolume create '' then Subvolume
      else if startswith c ''rsync '' then Copy
      else if c = ''sync'' then Flush
      else if startswith c ''grub-install '' then Bootloader
      else if startswith c ''apt-get '' then Install
      else Other)"

definition kind_of_command :: "command \<Rightarrow> kind" where
  "kind_of_command c =
     (case c of
        Shell line \<Rightarrow> kind_of_shell line
      | Argv args \<Rightarrow> if take 2 args = [''mountpoint'', ''-q''] then Query else Other)"

fun kind_of :: "event \<Rightarrow> kind" where
  "kind_of (EvProc c t out) = kind_of_command c"
| "kind_of (EvExists p b) = Query"
| "kind_of (EvIsFile p b) = Query"
| "kind_of (EvStat p r) = Query"
| "kind_of (EvGetSize p r) = Query"
| "kind_of (EvMakeDirs p r) = MakeDir"
| "kind_of (EvChmod p m r) = MakeDir"
| "kind_of (EvWrite p c r) = WriteFile"
| "kind_of (EvRead p r) = Query"
| "kind_of (EvGetEUid u) = Query"
| "kind_of (EvWhich p b) = Query"
| "kind_of (EvSleep ms) = Wait"
| "kind_of (EvInput r) = Prompt"

text \<open>One step of the world: a primitive is called in \<open>w\<close>, gives the event and leaves \<open>w'\<close>.\<close>

definition prim_step :: "'w env \<Rightarrow> 'w \<Rightarrow> event \<Rightarrow> 'w \<Rightarrow> bool" where
  "prim_step env w ev w' =
     ((\<exists>c t. ev = EvProc c t (fst (proc env c t w)) \<and> w' = snd (proc env c t w))
    \<or> (\<exists>p. ev = EvExists p (fst (path_exists env p w)) \<and> w' = snd (path_exists env p w))
    \<or> (\<exists>p. ev = EvIsFile p (fst (path_isfile env p w)) \<and> w' = snd (path_isfile env p w))
    \<or> (\<exists>p. ev = EvStat p (fst (stat env p w)) \<and> w' = snd (stat env p w))
    \<or> (\<exists>p. ev = EvGetSize p (fst (getsize env p w)) \<and> w' = snd (getsize env p w))
    \<or> (\<exists>p. ev = EvMakeDirs p (fst (makedirs env p w)) \<and> w' = snd (makedirs env p w))
    \<or> (\<exists>p m. ev = EvChmod p m (fst (chmod env p m w)) \<and> w' = snd (chmod env p m w))
    \<or> (\<exists>p c. ev = EvWrite p c (fst (write_file env p c w)) \<and> w' = snd (write_file env p c w))
    \<or> (\<exists>p. ev = EvRead p (fst (read_file env p w)) \<and> w' = snd (read_file env p w))
    \<or> (ev = EvGetEUid (fst (geteuid env w)) \<and> w' = snd (geteuid env w))
    \<or> (\<exists>p. ev = EvWhich p (fst (which env p w)) \<and> w' = snd (which env p w))
    \<or> (\<exists>ms. ev = EvSleep ms \<and> w' = sleep env ms w)
    \<or> (ev = EvInput (fst (read_line env w)) \<and> w' = snd (read_line env w)))"

text \<open>
  A property \<open>U\<close> of the world is kept by the steps of the kinds \<open>K\<close> when no such step
  leads from a world with \<open>U\<close> to one without.
\<close>

definition keeps :: "'w env \<Rightarrow> ('w \<Rightarrow> bool) \<Rightarrow> kind set \<Rightarrow> bool" where
  "keeps env U K =
     (\<forall>w ev w'. U w \<longrightarrow> prim_step env w ev w' \<longrightarrow> kind_of ev \<in> K \<longrightarrow> U w')"

text \<open>
  The judgement of the proofs: started in a world with \<open>U\<close>, the program \<open>m\<close> ends in a
  world with \<open>U\<close>, and its result and the events it adds to the trace satisfy \<open>R\<close>.
\<close>

definition hoare ::
  "('w \<Rightarrow> bool) \<Rightarrow> ('a, 'w) py \<Rightarrow> ((exn + 'a) \<Rightarrow> event list \<Rightarrow> bool) \<Rightarrow> bool" where
  "hoare U m R =
     (\<forall>s. U (world s) \<longrightarrow>
        (case m s of (r, s') \<Rightarrow> U (world s') \<and> (\<exists>evs. trace s' = trace s @ evs \<and> R r evs)))"

text \<open>
  Its most used instance: every event of \<open>m\<close> has a kind in \<open>K\<close>, and every exception \<open>m\<close>
  raises satisfies \<open>Q\<close>.
\<close>

definition obeys ::
  "('w \<Rightarrow> bool) \<Rightarrow> kind set \<Rightarrow> (exn \<Rightarrow> bool) \<Rightarrow> ('a, 'w) py \<Rightarrow> bool" where
  "obeys U K Q m =
     hoare U m (\<lambda>r evs. kind_of ` set evs \<subseteq> K \<and> (case r of Inl e \<Rightarrow> Q e | Inr x \<Rightarrow> True))"


section \<open>Facts about strings\<close>

lemma startswith_iff: "startswith s p \<longleftrightarrow> (\<exists>rest. s = p @ rest)"
  unfolding startswith_def
  by (metis append_eq_conv_conj append_take_drop_id)

lemma basename_plain: "CHR ''/'' \<notin> set b \<Longrightarrow> basename b = b"
proof -
  assume a: "CHR ''/'' \<notin> set b"
  have "takeWhile (\<lambda>c. c \<noteq> CHR ''/'') (rev b) = rev b"
    using a by (simp add: takeWhile_eq_all_conv) metis
  then show ?thesis by (simp only: basename_def rev_rev_ident)
qed

lemma basename_dir: "CHR ''/'' \<notin> set b \<Longrightarrow> basename (dir @ ''/'' @ b) = b"
proof -
  assume a: "CHR ''/'' \<notin> set b"
  have "\<And>x. x \<in> set (rev b) \<Longrightarrow> x \<noteq> CHR ''/''"
    using a by auto
  then have "takeWhile (\<lambda>c. c \<noteq> CHR ''/'') (rev b @ CHR ''/'' # rev dir) =
             rev b @ takeWhile (\<lambda>c. c \<noteq> CHR ''/'') (CHR ''/'' # rev dir)"
    by (rule takeWhile_append2)
  then show ?thesis unfolding basename_def by simp
qed

section \<open>Partition names\<close>

text \<open>
  Claim C8. Every device path is a base name \<open>b\<close> without slash, alone or after a
  directory part and a slash. When \<open>b\<close> begins with \<^verbatim>\<open>mmcblk\<close>, \<^verbatim>\<open>nvme\<close> or \<^verbatim>\<open>loop\<close>,
  \<^verbatim>\<open>get_partition_names\<close> returns the device path followed by \<^verbatim>\<open>p1\<close>, \<^verbatim>\<open>p2\<close>, \<^verbatim>\<open>p3\<close>; for
  every other device path it returns the path followed by \<^verbatim>\<open>1\<close>, \<^verbatim>\<open>2\<close>, \<^verbatim>\<open>3\<close>.
\<close>

theorem get_partition_names_scheme:
  assumes "CHR ''/'' \<notin> set b" and "device = b \<or> device = dir @ ''/'' @ b"
  shows "get_partition_names device =
     (if (\<exists>rest. b = ''mmcblk'' @ rest) \<or> (\<exists>rest. b = ''nvme'' @ rest)
         \<or> (\<exists>rest. b = ''loop'' @ rest)
      then (device @ ''p1'', device @ ''p2'', device @ ''p3'')
      else (device @ ''1'', device @ ''2'', device @ ''3''))"
proof -
  have "basename device = b"
    using assms basename_plain basename_dir by blast
  then show ?thesis
    unfolding get_partition_names_def startswith_any_def
    by (simp add: startswith_iff Let_def)
qed

theorem get_partition_names_scheme_witness:
  "get_partition_names ''/dev/nvme0n1'' =
     (''/dev/nvme0n1p1'', ''/dev/nvme0n1p2'', ''/dev/nvme0n1p3'')
   \<and> get_partition_names ''/dev/sdb'' = (''/dev/sdb1'', ''/dev/sdb2'', ''/dev/sdb3'')"
  using get_partition_names_scheme [of "''nvme0n1''" "''/dev/nvme0n1''" "''/dev''"]
        get_partition_names_scheme [of "''sdb''" "''/dev/sdb''" "''/dev''"]
  by simp

section \<open>Unmounting a path that does not exist\<close>

text \<open>
  Claim C10. When \<^verbatim>\<open>os.path.exists(path)\<close> is false, \<^verbatim>\<open>force_unmount\<close> returns \<^verbatim>\<open>True\<close> at
  once, whatever \<^verbatim>\<open>max_attempts\<close> is: the existence test is the only event of the call, so
  no mount query, no \<^verbatim>\<open>fuser\<close> and no \<^verbatim>\<open>umount\<close> is run.
\<close>

theorem force_unmount_missing_path:
  assumes "path_exists env path (world s) = (False, w)"
  shows "force_unmount env path max_attempts s =
           (Inr True, \<lparr>world = w, trace = trace s @ [EvExists path False]\<rparr>)"
  using assms
  by (simp add: force_unmount_def bnd_def os_path_exists_def ret_def record_event_def)

theorem force_unmount_missing_path_witness:
  "force_unmount (calm\<lparr>path_exists := \<lambda>p w. (False, w)\<rparr>) ''/mnt/usb_boot'' 3 start =
     (Inr True, \<lparr>world = (), trace = [EvExists ''/mnt/usb_boot'' False]\<rparr>)"
  using force_unmount_missing_path
          [of "calm\<lparr>path_exists := \<lambda>p w. (False, w)\<rparr>" "''/mnt/usb_boot''" start "()" 3]
  by (simp add: calm_def start_def)

section \<open>The process runner: what a call returns\<close>

text \<open>
  One call of \<^verbatim>\<open>run_cmd\<close> is one child process; the value is read off its outcome. No
  outcome makes \<^verbatim>\<open>run_cmd\<close> raise.
\<close>

lemma run_cmd_run:
  assumes "proc env (Shell cmd) timeout (world s) = (out, w)"
  shows "run_cmd env cmd check capture ignore_error timeout s =
     (Inr (case out of
             Exited rc so se \<Rightarrow>
               if capture
               then (if rc \<noteq> 0 then (if ignore_error then RNone else RFalse)
                     else RStr (strip so))
               else if check \<and> rc \<noteq> 0 then (if ignore_error then RNone else RFalse)
               else RTrue
           | TimedOut \<Rightarrow> if ignore_error then RNone else RFalse
           | SpawnError msg \<Rightarrow> RFalse),
      \<lparr>world = w, trace = trace s @ [EvProc (Shell cmd) timeout out]\<rparr>)"
  using assms
  by (cases out)
     (simp_all add: run_cmd_def try_except_def bnd_def check_output_def subprocess_run_def
        ret_def record_event_def)




section \<open>Validation of the device\<close>

lemma safety_loop:
  "for_loop ls safety_line s = (Inr (if list_ex critical_line ls then Some False else None), s)"
  by (induction ls)
     (auto simp: ret_def safety_line_def critical_line_def Let_def split: list.splits)

text \<open>
  A run of \<^verbatim>\<open>validate_device\<close> asks at most three things: whether the path exists, its
  file type, and the \<^verbatim>\<open>lsblk\<close> listing. With the three answers named, the run is:
\<close>

lemma validate_device_run:
  assumes "path_exists env device (world s) = (ex, w1)"
    and "stat env device w1 = (st, w2)"
    and "proc env (Shell (''lsblk -ln -o NAME,MOUNTPOINT '' @ device)) (Some 10) w2 = (out, w3)"
  shows "validate_device env device s =
     (if \<not> ex then (Inr False, \<lparr>world = w1, trace = trace s @ [EvExists device False]\<rparr>)
      else if st \<noteq> Inr BlockDevice
      then (Inr False, \<lparr>world = w2, trace = trace s @ [EvExists device True, EvStat device st]\<rparr>)
      else (Inr (\<not> reports_critical out),
            \<lparr>world = w3,
               trace = trace s @ [EvExists device True, EvStat device (Inr BlockDevice),
                 EvProc (Shell (''lsblk -ln -o NAME,MOUNTPOINT '' @ device)) (Some 10) out]\<rparr>))"
proof (cases ex)
  case False
  then show ?thesis
    using assms(1)
    by (simp add: validate_device_def bnd_def os_path_exists_def ret_def record_event_def)
next
  case True
  note ex = this
  show ?thesis
  proof (cases "st = Inr BlockDevice")
    case False
    then show ?thesis
      using assms(1,2) ex
      by (cases st)
         (auto simp: validate_device_def bnd_def os_path_exists_def os_stat_def ret_def
            record_event_def try_except_def except_Exception_def is_Exception_def)
  next
    case True
    have run: "run_cmd env (''lsblk -ln -o NAME,MOUNTPOINT '' @ device) True True True (Some 10)
                 \<lparr>world = w2, trace = trace s @ [EvExists device True, EvStat device (Inr BlockDevice)]\<rparr>
               = (Inr (case out of
                         Exited rc so se \<Rightarrow> if rc \<noteq> 0 then RNone else RStr (strip so)
                       | TimedOut \<Rightarrow> RNone
                       | SpawnError msg \<Rightarrow> RFalse),
                  \<lparr>world = w3,
                     trace = trace s @ [EvExists device True, EvStat device (Inr BlockDevice),
                       EvProc (Shell (''lsblk -ln -o NAME,MOUNTPOINT '' @ device)) (Some 10) out]\<rparr>)"
      using run_cmd_run [of env "''lsblk -ln -o NAME,MOUNTPOINT '' @ device" "Some 10"
          "\<lparr>world = w2, trace = trace s @ [EvExists device True, EvStat device (Inr BlockDevice)]\<rparr>"
          out w3 True True True] assms(3)
      by (cases out) simp_all
    show ?thesis
      using assms(1,2) ex True run
      by (cases out)
         (auto simp: validate_device_def safety_check_def bnd_def os_path_exists_def os_stat_def
            ret_def record_event_def try_except_def except_Exception_def safety_loop
            truthy_def reports_critical_def critical_line_def split_ws_def)
  qed
qed

text \<open>
  Claim C5 fails as stated: a path that exists and is a directory is none of the cases the
  claim gives for \<^verbatim>\<open>False\<close> (it is not missing, not a regular file, not a character device,
  and no critical mount is reported), yet \<^verbatim>\<open>validate_device\<close> returns \<^verbatim>\<open>False\<close> for it.
\<close>

theorem validate_device_rejects_directory:
  "path_exists (calm\<lparr>stat := \<lambda>p w. (Inr Directory, w)\<rparr>) ''/tmp'' () = (True, ())
   \<and> stat (calm\<lparr>stat := \<lambda>p w. (Inr Directory, w)\<rparr>) ''/tmp'' () = (Inr Directory, ())
   \<and> \<not> reports_critical
         (fst (proc (calm\<lparr>stat := \<lambda>p w. (Inr Directory, w)\<rparr>)
                 (Shell ''lsblk -ln -o NAME,MOUNTPOINT /tmp'') (Some 10) ()))
   \<and> validate_device (calm\<lparr>stat := \<lambda>p w. (Inr Directory, w)\<rparr>) ''/tmp'' start =
       (Inr False,
        \<lparr>world = (), trace = [EvExists ''/tmp'' True, EvStat ''/tmp'' (Inr Directory)]\<rparr>)"
  using validate_device_run
          [of "calm\<lparr>stat := \<lambda>p w. (Inr Directory, w)\<rparr>" "''/tmp''" start True "()"
              "Inr Directory" "()" "Exited 0 [] []" "()"]
  by (simp add: calm_def start_def reports_critical_def critical_line_def split_ws_def strip_def)

text \<open>
  Claim C5, amended. \<^verbatim>\<open>validate_device\<close> returns \<^verbatim>\<open>True\<close> exactly when the path exists,
  \<^verbatim>\<open>os.stat\<close> succeeds and reports a block device, and the \<^verbatim>\<open>lsblk\<close> call does not report a
  critical mount. So it returns \<^verbatim>\<open>False\<close> for a missing path, when \<^verbatim>\<open>os.stat\<close> fails, for
  every file type other than a block device (regular file, character device, directory,
  FIFO, socket), and when \<^verbatim>\<open>lsblk\<close> exits with 0 and a line of its output has a protected
  mount point as second field; it returns \<^verbatim>\<open>True\<close> otherwise.
\<close>

theorem validate_device_verdict:
  assumes "path_exists env device (world s) = (ex, w1)"
    and "stat env device w1 = (st, w2)"
    and "proc env (Shell (''lsblk -ln -o NAME,MOUNTPOINT '' @ device)) (Some 10) w2 = (out, w3)"
  shows "fst (validate_device env device s) =
           Inr (ex \<and> st = Inr BlockDevice \<and> \<not> reports_critical out)"
  unfolding validate_device_run [OF assms] by simp

theorem validate_device_verdict_witness:
  "fst (validate_device
          (calm\<lparr>proc := \<lambda>c t w. (Exited 0 (''sdb'' @ [CHR 0x0A] @ ''sdb1 /boot'' @ [CHR 0x0A]) [], w)\<rparr>)
          ''/dev/sdb'' start) = Inr False
   \<and> fst (validate_device calm ''/dev/sdb'' start) = Inr True"
  using validate_device_verdict
          [of "calm\<lparr>proc := \<lambda>c t w. (Exited 0 (''sdb'' @ [CHR 0x0A] @ ''sdb1 /boot'' @ [CHR 0x0A]) [], w)\<rparr>"
              "''/dev/sdb''" start True "()" "Inr BlockDevice" "()"
              "Exited 0 (''sdb'' @ [CHR 0x0A] @ ''sdb1 /boot'' @ [CHR 0x0A]) []" "()"]
        validate_device_verdict
          [of calm "''/dev/sdb''" start True "()" "Inr BlockDevice" "()" "Exited 0 [] []" "()"]
  by (simp add: calm_def start_def reports_critical_def critical_line_def split_ws_def strip_def
        is_space_def critical_mounts_def)

text \<open>
  Claim C9. For a path that exists and is a block device, when the \<^verbatim>\<open>lsblk\<close> call of the
  safety check times out, cannot be started, exits with a non-zero code or prints nothing
  but whitespace, \<^verbatim>\<open>validate_device\<close> returns \<^verbatim>\<open>True\<close>: the check of the critical mount
  points is skipped, and the three queries are the only events of the call.
\<close>

theorem validate_device_fails_open:
  assumes "path_exists env device (world s) = (True, w1)"
    and "stat env device w1 = (Inr BlockDevice, w2)"
    and "proc env (Shell (''lsblk -ln -o NAME,MOUNTPOINT '' @ device)) (Some 10) w2 = (out, w3)"
    and "out = TimedOut \<or> (\<exists>msg. out = SpawnError msg)
         \<or> (\<exists>rc so se. out = Exited rc so se \<and> (rc \<noteq> 0 \<or> strip so = []))"
  shows "validate_device env device s =
     (Inr True,
      \<lparr>world = w3,
         trace = trace s @ [EvExists device True, EvStat device (Inr BlockDevice),
           EvProc (Shell (''lsblk -ln -o NAME,MOUNTPOINT '' @ device)) (Some 10) out]\<rparr>)"
proof -
  have "\<not> reports_critical out"
    using assms(4)
    by (auto simp: reports_critical_def critical_line_def split_ws_def)
  then show ?thesis
    unfolding validate_device_run [OF assms(1,2,3)] by simp
qed

theorem validate_device_fails_open_witness:
  "validate_device (calm\<lparr>proc := \<lambda>c t w. (TimedOut, w)\<rparr>) ''/dev/sdb'' start =
     (Inr True,
      \<lparr>world = (),
         trace = [EvExists ''/dev/sdb'' True, EvStat ''/dev/sdb'' (Inr BlockDevice),
           EvProc (Shell ''lsblk -ln -o NAME,MOUNTPOINT /dev/sdb'') (Some 10) TimedOut]\<rparr>)"
  using validate_device_fails_open
          [of "calm\<lparr>proc := \<lambda>c t w. (TimedOut, w)\<rparr>" "''/dev/sdb''" start "()" "()" TimedOut "()"]
  by (simp add: calm_def start_def)

section \<open>Rules of the judgement\<close>


lemma hoareI:
  assumes "\<And>s r s'. U (world s) \<Longrightarrow> m s = (r, s')
             \<Longrightarrow> U (world s') \<and> (\<exists>evs. trace s' = trace s @ evs \<and> R r evs)"
  shows "hoare U m R"
  unfolding hoare_def using assms by (auto split: prod.splits)

lemma hoareD:
  assumes "hoare U m R" and "U (world s)" and "m s = (r, s')"
  shows "U (world s') \<and> (\<exists>evs. trace s' = trace s @ evs \<and> R r evs)"
  using assms unfolding hoare_def by (auto split: prod.splits)

lemma hoare_weaken:
  assumes "hoare U m R" and "\<And>r evs. R r evs \<Longrightarrow> R' r evs"
  shows "hoare U m R'"
  by (rule hoareI) (use hoareD [OF assms(1)] assms(2) in blast)

lemma hoare_ret: "R (Inr x) [] \<Longrightarrow> hoare U (ret x) R"
  by (rule hoareI) (simp add: ret_def)

lemma hoare_raise: "R (Inl e) [] \<Longrightarrow> hoare U (raise e) R"
  by (rule hoareI) (simp add: raise_def)

lemma hoare_bnd:
  assumes m: "hoare U m R1"
    and f: "\<And>x e1. R1 (Inr x) e1 \<Longrightarrow> hoare U (f x) (\<lambda>r e2. R r (e1 @ e2))"
    and e: "\<And>e e1. R1 (Inl e) e1 \<Longrightarrow> R (Inl e) e1"
  shows "hoare U (bnd m f) R"
proof (rule hoareI)
  fix s r s'
  assume U: "U (world s)" and run: "bnd m f s = (r, s')"
  obtain r1 s1 where m1: "m s = (r1, s1)" by (cases "m s")
  from hoareD [OF m U m1] obtain e1
    where U1: "U (world s1)" and t1: "trace s1 = trace s @ e1" and R1: "R1 r1 e1"
    by blast
  show "U (world s') \<and> (\<exists>evs. trace s' = trace s @ evs \<and> R r evs)"
  proof (cases r1)
    case (Inl ex)
    with run m1 have "r = Inl ex" "s' = s1" by (simp_all add: bnd_def)
    with U1 t1 R1 Inl e show ?thesis by auto
  next
    case (Inr x)
    with run m1 have fx: "f x s1 = (r, s')" by (simp add: bnd_def)
    from R1 Inr have "R1 (Inr x) e1" by simp
    from hoareD [OF f [OF this] U1 fx] obtain e2
      where "U (world s')" "trace s' = trace s1 @ e2" "R r (e1 @ e2)" by blast
    with t1 show ?thesis by auto
  qed
qed

lemma hoare_thn:
  assumes "hoare U m R1"
    and "\<And>x e1. R1 (Inr x) e1 \<Longrightarrow> hoare U k (\<lambda>r e2. R r (e1 @ e2))"
    and "\<And>e e1. R1 (Inl e) e1 \<Longrightarrow> R (Inl e) e1"
  shows "hoare U (thn m k) R"
  unfolding thn_def by (rule hoare_bnd [OF assms(1)]) (use assms(2,3) in auto)

lemma hoare_try:
  assumes m: "hoare U m R1"
    and ok: "\<And>x e1. R1 (Inr x) e1 \<Longrightarrow> R (Inr x) e1"
    and pass: "\<And>e e1. R1 (Inl e) e1 \<Longrightarrow> h e = None \<Longrightarrow> R (Inl e) e1"
    and handle: "\<And>e e1 k. R1 (Inl e) e1 \<Longrightarrow> h e = Some k
                   \<Longrightarrow> hoare U k (\<lambda>r e2. R r (e1 @ e2))"
  shows "hoare U (try_except m h) R"
proof (rule hoareI)
  fix s r s'
  assume U: "U (world s)" and run: "try_except m h s = (r, s')"
  obtain r1 s1 where m1: "m s = (r1, s1)" by (cases "m s")
  from hoareD [OF m U m1] obtain e1
    where U1: "U (world s1)" and t1: "trace s1 = trace s @ e1" and R1: "R1 r1 e1"
    by blast
  show "U (world s') \<and> (\<exists>evs. trace s' = trace s @ evs \<and> R r evs)"
  proof (cases r1)
    case (Inr x)
    with run m1 have "r = Inr x" "s' = s1" by (simp_all add: try_except_def)
    with U1 t1 R1 Inr ok show ?thesis by auto
  next
    case (Inl ex)
    show ?thesis
    proof (cases "h ex")
      case None
      with run m1 Inl have "r = Inl ex" "s' = s1" by (simp_all add: try_except_def)
      with U1 t1 R1 Inl None pass show ?thesis by auto
    next
      case (Some k)
      with run m1 Inl have k: "k s1 = (r, s')" by (simp add: try_except_def)
      from R1 Inl have "R1 (Inl ex) e1" by simp
      from hoareD [OF handle [OF this Some] U1 k] obtain e2
        where "U (world s')" "trace s' = trace s1 @ e2" "R r (e1 @ e2)" by blast
      with t1 show ?thesis by auto
    qed
  qed
qed

lemma hoare_for_loop:
  assumes body: "\<And>i. i \<in> set xs \<Longrightarrow> hoare U (body i) R1"
    and fin: "R (Inr None) []"
    and stop: "\<And>r e1. R1 r e1 \<Longrightarrow> r \<noteq> Inr None \<Longrightarrow> R r e1"
    and step: "\<And>r e1 e2. R1 (Inr None) e1 \<Longrightarrow> R r e2 \<Longrightarrow> R r (e1 @ e2)"
  shows "hoare U (for_loop xs body) R"
  using body
proof (induction xs)
  case Nil
  show ?case using fin by (simp add: hoare_ret)
next
  case (Cons i rest)
  have rest: "hoare U (for_loop rest body) R"
    using Cons by simp
  show ?case
  proof (rule hoareI)
    fix s r s'
    assume U: "U (world s)" and run: "for_loop (i # rest) body s = (r, s')"
    obtain r1 s1 where b: "body i s = (r1, s1)" by (cases "body i s")
    have "hoare U (body i) R1" using Cons.prems by simp
    from hoareD [OF this U b] obtain e1
      where U1: "U (world s1)" and t1: "trace s1 = trace s @ e1" and R1: "R1 r1 e1"
      by blast
    show "U (world s') \<and> (\<exists>evs. trace s' = trace s @ evs \<and> R r evs)"
    proof (cases "r1 = Inr None")
      case True
      with run b have "for_loop rest body s1 = (r, s')" by simp
      from hoareD [OF rest U1 this] obtain e2
        where "U (world s')" "trace s' = trace s1 @ e2" "R r e2" by blast
      with t1 R1 True step show ?thesis by auto
    next
      case False
      with run b have "r = r1 \<and> s' = s1"
        by (cases r1) (auto split: option.splits)
      with U1 t1 R1 False stop show ?thesis by auto
    qed
  qed
qed

lemma hoare_for_each:
  assumes body: "\<And>i. i \<in> set xs \<Longrightarrow> hoare U (body i) R1"
    and fin: "R (Inr ()) []"
    and stop: "\<And>e e1. R1 (Inl e) e1 \<Longrightarrow> R (Inl e) e1"
    and step: "\<And>u r e1 e2. R1 (Inr u) e1 \<Longrightarrow> R r e2 \<Longrightarrow> R r (e1 @ e2)"
  shows "hoare U (for_each xs body) R"
  using body
proof (induction xs)
  case Nil
  show ?case using fin by (simp add: hoare_ret)
next
  case (Cons i rest)
  have rest: "hoare U (for_each rest body) R"
    using Cons by simp
  show ?case
  proof (rule hoareI)
    fix s r s'
    assume U: "U (world s)" and run: "for_each (i # rest) body s = (r, s')"
    obtain r1 s1 where b: "body i s = (r1, s1)" by (cases "body i s")
    have "hoare U (body i) R1" using Cons.prems by simp
    from hoareD [OF this U b] obtain e1
      where U1: "U (world s1)" and t1: "trace s1 = trace s @ e1" and R1: "R1 r1 e1"
      by blast
    show "U (world s') \<and> (\<exists>evs. trace s' = trace s @ evs \<and> R r evs)"
    proof (cases r1)
      case (Inr u)
      with run b have "for_each rest body s1 = (r, s')" by simp
      from hoareD [OF rest U1 this] obtain e2
        where "U (world s')" "trace s' = trace s1 @ e2" "R r e2" by blast
      with t1 R1 Inr step show ?thesis by auto
    next
      case (Inl e)
      with run b have "r = Inl e \<and> s' = s1" by simp
      with U1 t1 R1 Inl stop show ?thesis by auto
    qed
  qed
qed

subsection \<open>The steps of the primitives\<close>

lemma keepsD:
  "keeps env U K \<Longrightarrow> U w \<Longrightarrow> prim_step env w ev w' \<Longrightarrow> kind_of ev \<in> K \<Longrightarrow> U w'"
  unfolding keeps_def by blast

lemma step_proc: "proc env c t w = (out, w') \<Longrightarrow> prim_step env w (EvProc c t out) w'"
  unfolding prim_step_def by (metis fst_conv snd_conv)

lemma step_exists: "path_exists env p w = (b, w') \<Longrightarrow> prim_step env w (EvExists p b) w'"
  unfolding prim_step_def by (metis fst_conv snd_conv)

lemma step_isfile: "path_isfile env p w = (b, w') \<Longrightarrow> prim_step env w (EvIsFile p b) w'"
  unfolding prim_step_def by (metis fst_conv snd_conv)

lemma step_stat: "stat env p w = (r, w') \<Longrightarrow> prim_step env w (EvStat p r) w'"
  unfolding prim_step_def by (metis fst_conv snd_conv)

lemma step_getsize: "getsize env p w = (r, w') \<Longrightarrow> prim_step env w (EvGetSize p r) w'"
  unfolding prim_step_def by (metis fst_conv snd_conv)

lemma step_makedirs: "makedirs env p w = (r, w') \<Longrightarrow> prim_step env w (EvMakeDirs p r) w'"
  unfolding prim_step_def by (metis fst_conv snd_conv)

lemma step_chmod: "chmod env p m w = (r, w') \<Longrightarrow> prim_step env w (EvChmod p m r) w'"
  unfolding prim_step_def by (metis fst_conv snd_conv)

lemma step_write: "write_file env p c w = (r, w') \<Longrightarrow> prim_step env w (EvWrite p c r) w'"
  unfolding prim_step_def by (metis fst_conv snd_conv)

lemma step_read: "read_file env p w = (r, w') \<Longrightarrow> prim_step env w (EvRead p r) w'"
  unfolding prim_step_def by (metis fst_conv snd_conv)

lemma step_geteuid: "geteuid env w = (u, w') \<Longrightarrow> prim_step env w (EvGetEUid u) w'"
  unfolding prim_step_def by (metis fst_conv snd_conv)

lemma step_which: "which env p w = (b, w') \<Longrightarrow> prim_step env w (EvWhich p b) w'"
  unfolding prim_step_def by (metis fst_conv snd_conv)

lemma step_sleep: "prim_step env w (EvSleep ms) (sleep env ms w)"
  unfolding prim_step_def by blast

lemma step_input: "read_line env w = (r, w') \<Longrightarrow> prim_step env w (EvInput r) w'"
  unfolding prim_step_def by (metis fst_conv snd_conv)

text \<open>What one call of each primitive adds to the trace, and what it returns.\<close>

lemma hoare_subprocess_run:
  assumes "keeps env U K" and "kind_of_command cmd \<in> K"
  shows "hoare U (subprocess_run env cmd check timeout)
     (\<lambda>r evs. \<exists>out. evs = [EvProc cmd timeout out] \<and>
        r = (case out of
               Exited rc so se \<Rightarrow>
                 if check \<and> rc \<noteq> 0 then Inl (CalledProcessError rc se) else Inr (rc, so, se)
             | TimedOut \<Rightarrow> Inl TimeoutExpired
             | SpawnError msg \<Rightarrow> Inl (Exception msg)))"
proof (rule hoareI)
  fix s r s'
  assume U: "U (world s)" and run: "subprocess_run env cmd check timeout s = (r, s')"
  obtain out w where p: "proc env cmd timeout (world s) = (out, w)"
    by (cases "proc env cmd timeout (world s)")
  have "U w"
    using keepsD [OF assms(1) U step_proc [OF p]] assms(2) by simp
  then show "U (world s') \<and> (\<exists>evs. trace s' = trace s @ evs \<and> (\<exists>out. evs = [EvProc cmd timeout out] \<and>
        r = (case out of
               Exited rc so se \<Rightarrow>
                 if check \<and> rc \<noteq> 0 then Inl (CalledProcessError rc se) else Inr (rc, so, se)
             | TimedOut \<Rightarrow> Inl TimeoutExpired
             | SpawnError msg \<Rightarrow> Inl (Exception msg))))"
    using run p by (auto simp: subprocess_run_def record_event_def)
qed

lemma hoare_run_cmd:
  assumes "keeps env U K" and "kind_of_shell cmd \<in> K"
  shows "hoare U (run_cmd env cmd check capture ignore_error timeout)
     (\<lambda>r evs. \<exists>out v. evs = [EvProc (Shell cmd) timeout out] \<and> r = Inr v)"
proof (rule hoareI)
  fix s r s'
  assume U: "U (world s)"
    and run: "run_cmd env cmd check capture ignore_error timeout s = (r, s')"
  obtain out w where p: "proc env (Shell cmd) timeout (world s) = (out, w)"
    by (cases "proc env (Shell cmd) timeout (world s)")
  have "U w"
    using keepsD [OF assms(1) U step_proc [OF p]] assms(2) by (simp add: kind_of_command_def)
  then show "U (world s') \<and> (\<exists>evs. trace s' = trace s @ evs \<and>
          (\<exists>out v. evs = [EvProc (Shell cmd) timeout out] \<and> r = Inr v))"
    using run unfolding run_cmd_run [OF p] by auto
qed

lemma hoare_exists:
  assumes "keeps env U K" and "Query \<in> K"
  shows "hoare U (os_path_exists env p) (\<lambda>r evs. \<exists>b. evs = [EvExists p b] \<and> r = Inr b)"
proof (rule hoareI)
  fix s r s'
  assume U: "U (world s)" and run: "os_path_exists env p s = (r, s')"
  obtain b w where q: "path_exists env p (world s) = (b, w)"
    by (cases "path_exists env p (world s)")
  have "U w"
    using keepsD [OF assms(1) U step_exists [OF q]] assms(2) by simp
  then show "U (world s') \<and> (\<exists>evs. trace s' = trace s @ evs \<and> (\<exists>b. evs = [EvExists p b] \<and> r = Inr b))"
    using run q by (auto simp: os_path_exists_def record_event_def)
qed

lemma hoare_sleep:
  assumes "keeps env U K" and "Wait \<in> K"
  shows "hoare U (time_sleep env ms) (\<lambda>r evs. evs = [EvSleep ms] \<and> r = Inr ())"
proof (rule hoareI)
  fix s r s'
  assume U: "U (world s)" and run: "time_sleep env ms s = (r, s')"
  have "U (sleep env ms (world s))"
    using keepsD [OF assms(1) U step_sleep [of env "world s" ms]] assms(2) by simp
  then show "U (world s') \<and> (\<exists>evs. trace s' = trace s @ evs \<and> evs = [EvSleep ms] \<and> r = Inr ())"
    using run by (auto simp: time_sleep_def record_event_def)
qed

lemma hoare_input:
  assumes "keeps env U K" and "Prompt \<in> K"
  shows "hoare U (py_input env)
     (\<lambda>r evs. \<exists>a. evs = [EvInput a] \<and>
        r = (case a of None \<Rightarrow> Inl (Exception ''EOFError'') | Some ln \<Rightarrow> Inr ln))"
proof (rule hoareI)
  fix s r s'
  assume U: "U (world s)" and run: "py_input env s = (r, s')"
  obtain a w where q: "read_line env (world s) = (a, w)"
    by (cases "read_line env (world s)")
  have "U w"
    using keepsD [OF assms(1) U step_input [OF q]] assms(2) by simp
  then show "U (world s') \<and> (\<exists>evs. trace s' = trace s @ evs \<and> (\<exists>a. evs = [EvInput a] \<and>
        r = (case a of None \<Rightarrow> Inl (Exception ''EOFError'') | Some ln \<Rightarrow> Inr ln)))"
    using run q by (auto simp: py_input_def record_event_def)
qed

subsection \<open>Kinds of events and exceptions\<close>

lemma obeys_ret: "obeys U K Q (ret x)"
  unfolding obeys_def by (rule hoare_ret) simp

lemma obeys_raise: "Q e \<Longrightarrow> obeys U K Q (raise e)"
  unfolding obeys_def by (rule hoare_raise) simp

lemma obeys_sys_exit: "Q (SystemExit code) \<Longrightarrow> obeys U K Q (sys_exit code)"
  unfolding sys_exit_def by (rule obeys_raise)

lemma obeys_weaken:
  assumes "obeys U K Q m" and "\<And>e. Q e \<Longrightarrow> Q' e"
  shows "obeys U K Q' m"
  using assms(1) unfolding obeys_def
  by (rule hoare_weaken) (use assms(2) in \<open>auto split: sum.splits\<close>)

lemma obeys_bnd:
  assumes "obeys U K Q m" and "\<And>x. obeys U K Q (f x)"
  shows "obeys U K Q (bnd m f)"
  unfolding obeys_def
  apply (rule hoare_bnd [OF assms(1) [unfolded obeys_def]])
  subgoal for x e1
    by (rule hoare_weaken [OF assms(2) [unfolded obeys_def]]) auto
  subgoal by simp
  done

lemma obeys_thn:
  assumes "obeys U K Q m" and "obeys U K Q k"
  shows "obeys U K Q (thn m k)"
  unfolding thn_def using assms by (intro obeys_bnd)

lemma obeys_if:
  assumes "b \<Longrightarrow> obeys U K Q m" and "\<not> b \<Longrightarrow> obeys U K Q k"
  shows "obeys U K Q (if b then m else k)"
  using assms by simp

lemma obeys_try:
  assumes m: "obeys U K R m"
    and pass: "\<And>e. R e \<Longrightarrow> h e = None \<Longrightarrow> Q e"
    and handle: "\<And>e k. R e \<Longrightarrow> h e = Some k \<Longrightarrow> obeys U K Q k"
  shows "obeys U K Q (try_except m h)"
  unfolding obeys_def
  apply (rule hoare_try [OF m [unfolded obeys_def]])
  subgoal by simp
  subgoal using pass by simp
  subgoal for e e1 k
    by (rule hoare_weaken [OF handle [unfolded obeys_def, of e k]]) auto
  done

lemma obeys_try_all:
  assumes "obeys U K R m" and "obeys U K Q k"
  shows "obeys U K Q (try_except m (except_all k))"
  by (rule obeys_try [OF assms(1)]) (use assms(2) in \<open>auto simp: except_all_def\<close>)

lemma obeys_try_Exception:
  assumes "obeys U K R m" and "\<And>e. R e \<Longrightarrow> \<not> is_Exception e \<Longrightarrow> Q e"
    and "\<And>e. obeys U K Q (k e)"
  shows "obeys U K Q (try_except m (except_Exception k))"
  by (rule obeys_try [OF assms(1)])
     (use assms(2,3) in \<open>auto simp: except_Exception_def split: if_splits\<close>)

lemma obeys_for_loop:
  assumes "\<And>i. obeys U K Q (body i)"
  shows "obeys U K Q (for_loop xs body)"
  unfolding obeys_def
  by (rule hoare_for_loop [OF assms [unfolded obeys_def]]) auto

lemma obeys_for_each:
  assumes "\<And>i. obeys U K Q (body i)"
  shows "obeys U K Q (for_each xs body)"
  unfolding obeys_def
  by (rule hoare_for_each [OF assms [unfolded obeys_def]]) auto

lemma obeys_py_and:
  assumes "obeys U K Q a" and "obeys U K Q b"
  shows "obeys U K Q (py_and a b)"
  unfolding py_and_def using assms by (intro obeys_bnd obeys_if obeys_ret)

lemma obeys_subprocess_run:
  assumes "keeps env U K" and "kind_of_command cmd \<in> K" and "\<And>e. is_Exception e \<Longrightarrow> Q e"
  shows "obeys U K Q (subprocess_run env cmd check timeout)"
  unfolding obeys_def
proof (rule hoare_weaken [OF hoare_subprocess_run [OF assms(1,2)]])
  fix r :: "exn + int \<times> string \<times> string" and evs
  assume "\<exists>out. evs = [EvProc cmd timeout out] \<and>
        r = (case out of
               Exited rc so se \<Rightarrow>
                 if check \<and> rc \<noteq> 0 then Inl (CalledProcessError rc se) else Inr (rc, so, se)
             | TimedOut \<Rightarrow> Inl TimeoutExpired
             | SpawnError msg \<Rightarrow> Inl (Exception msg))"
  then obtain out where evs: "evs = [EvProc cmd timeout out]"
    and r: "r = (case out of
               Exited rc so se \<Rightarrow>
                 if check \<and> rc \<noteq> 0 then Inl (CalledProcessError rc se) else Inr (rc, so, se)
             | TimedOut \<Rightarrow> Inl TimeoutExpired
             | SpawnError msg \<Rightarrow> Inl (Exception msg))"
    by blast
  have "case r of Inl e \<Rightarrow> Q e | Inr x \<Rightarrow> True"
    using r assms(3) by (cases out) (auto simp: is_Exception_def)
  then show "kind_of ` set evs \<subseteq> K \<and> (case r of Inl e \<Rightarrow> Q e | Inr x \<Rightarrow> True)"
    using evs assms(2) by simp
qed

lemma obeys_run_cmd:
  assumes "keeps env U K" and "kind_of_shell cmd \<in> K"
  shows "obeys U K Q (run_cmd env cmd check capture ignore_error timeout)"
  unfolding obeys_def
  by (rule hoare_weaken [OF hoare_run_cmd [OF assms]])
     (use assms(2) in \<open>auto simp: kind_of_command_def\<close>)

lemma obeys_exists:
  assumes "keeps env U K" and "Query \<in> K"
  shows "obeys U K Q (os_path_exists env p)"
  unfolding obeys_def
  by (rule hoare_weaken [OF hoare_exists [OF assms]]) (use assms(2) in auto)

lemma obeys_sleep:
  assumes "keeps env U K" and "Wait \<in> K"
  shows "obeys U K Q (time_sleep env ms)"
  unfolding obeys_def
  by (rule hoare_weaken [OF hoare_sleep [OF assms]]) (use assms(2) in auto)

lemma obeys_input:
  assumes "keeps env U K" and "Prompt \<in> K" and "\<And>e. is_Exception e \<Longrightarrow> Q e"
  shows "obeys U K Q (py_input env)"
  unfolding obeys_def
  by (rule hoare_weaken [OF hoare_input [OF assms(1,2)]])
     (use assms(2,3) in \<open>auto simp: is_Exception_def split: option.splits\<close>)

lemma obeys_isfile:
  assumes "keeps env U K" and "Query \<in> K"
  shows "obeys U K Q (os_path_isfile env p)"
  unfolding obeys_def
proof (rule hoareI)
  fix s r s'
  assume U: "U (world s)" and run: "os_path_isfile env p s = (r, s')"
  obtain b w where q: "path_isfile env p (world s) = (b, w)"
    by (cases "path_isfile env p (world s)")
  have "U w"
    using keepsD [OF assms(1) U step_isfile [OF q]] assms(2) by simp
  then show "U (world s') \<and> (\<exists>evs. trace s' = trace s @ evs \<and> kind_of ` set evs \<subseteq> K
      \<and> (case r of Inl e \<Rightarrow> Q e | Inr x \<Rightarrow> True))"
    using run q assms(2) by (auto simp: os_path_isfile_def record_event_def)
qed

lemma obeys_stat:
  assumes "keeps env U K" and "Query \<in> K" and "\<And>e. is_Exception e \<Longrightarrow> Q e"
  shows "obeys U K Q (os_stat env p)"
  unfolding obeys_def
proof (rule hoareI)
  fix s r s'
  assume U: "U (world s)" and run: "os_stat env p s = (r, s')"
  obtain b w where q: "stat env p (world s) = (b, w)"
    by (cases "stat env p (world s)")
  have "U w"
    using keepsD [OF assms(1) U step_stat [OF q]] assms(2) by simp
  then show "U (world s') \<and> (\<exists>evs. trace s' = trace s @ evs \<and> kind_of ` set evs \<subseteq> K
      \<and> (case r of Inl e \<Rightarrow> Q e | Inr x \<Rightarrow> True))"
    using run q assms(2,3)
    by (auto simp: os_stat_def record_event_def is_Exception_def split: sum.splits)
qed

lemma obeys_getsize:
  assumes "keeps env U K" and "Query \<in> K" and "\<And>e. is_Exception e \<Longrightarrow> Q e"
  shows "obeys U K Q (os_path_getsize env p)"
  unfolding obeys_def
proof (rule hoareI)
  fix s r s'
  assume U: "U (world s)" and run: "os_path_getsize env p s = (r, s')"
  obtain b w where q: "getsize env p (world s) = (b, w)"
    by (cases "getsize env p (world s)")
  have "U w"
    using keepsD [OF assms(1) U step_getsize [OF q]] assms(2) by simp
  then show "U (world s') \<and> (\<exists>evs. trace s' = trace s @ evs \<and> kind_of ` set evs \<subseteq> K
      \<and> (case r of Inl e \<Rightarrow> Q e | Inr x \<Rightarrow> True))"
    using run q assms(2,3)
    by (auto simp: os_path_getsize_def record_event_def is_Exception_def split: sum.splits)
qed

lemma obeys_makedirs:
  assumes "keeps env U K" and "MakeDir \<in> K" and "\<And>e. is_Exception e \<Longrightarrow> Q e"
  shows "obeys U K Q (os_makedirs env p)"
  unfolding obeys_def
proof (rule hoareI)
  fix s r s'
  assume U: "U (world s)" and run: "os_makedirs env p s = (r, s')"
  obtain b w where q: "makedirs env p (world s) = (b, w)"
    by (cases "makedirs env p (world s)")
  have "U w"
    using keepsD [OF assms(1) U step_makedirs [OF q]] assms(2) by simp
  then show "U (world s') \<and> (\<exists>evs. trace s' = trace s @ evs \<and> kind_of ` set evs \<subseteq> K
      \<and> (case r of Inl e \<Rightarrow> Q e | Inr x \<Rightarrow> True))"
    using run q assms(2,3)
    by (auto simp: os_makedirs_def record_event_def is_Exception_def split: option.splits)
qed

lemma obeys_chmod:
  assumes "keeps env U K" and "MakeDir \<in> K" and "\<And>e. is_Exception e \<Longrightarrow> Q e"
  shows "obeys U K Q (os_chmod env p mode)"
  unfolding obeys_def
proof (rule hoareI)
  fix s r s'
  assume U: "U (world s)" and run: "os_chmod env p mode s = (r, s')"
  obtain b w where q: "chmod env p mode (world s) = (b, w)"
    by (cases "chmod env p mode (world s)")
  have "U w"
    using keepsD [OF assms(1) U step_chmod [OF q]] assms(2) by simp
  then show "U (world s') \<and> (\<exists>evs. trace s' = trace s @ evs \<and> kind_of ` set evs \<subseteq> K
      \<and> (case r of Inl e \<Rightarrow> Q e | Inr x \<Rightarrow> True))"
    using run q assms(2,3)
    by (auto simp: os_chmod_def record_event_def is_Exception_def split: option.splits)
qed

lemma obeys_write:
  assumes "keeps env U K" and "WriteFile \<in> K" and "\<And>e. is_Exception e \<Longrightarrow> Q e"
  shows "obeys U K Q (write_text env p content)"
  unfolding obeys_def
proof (rule hoareI)
  fix s r s'
  assume U: "U (world s)" and run: "write_text env p content s = (r, s')"
  obtain b w where q: "write_file env p content (world s) = (b, w)"
    by (cases "write_file env p content (world s)")
  have "U w"
    using keepsD [OF assms(1) U step_write [OF q]] assms(2) by simp
  then show "U (world s') \<and> (\<exists>evs. trace s' = trace s @ evs \<and> kind_of ` set evs \<subseteq> K
      \<and> (case r of Inl e \<Rightarrow> Q e | Inr x \<Rightarrow> True))"
    using run q assms(2,3)
    by (auto simp: write_text_def record_event_def is_Exception_def split: option.splits)
qed

lemma obeys_read:
  assumes "keeps env U K" and "Query \<in> K" and "\<And>e. is_Exception e \<Longrightarrow> Q e"
  shows "obeys U K Q (read_text env p)"
  unfolding obeys_def
proof (rule hoareI)
  fix s r s'
  assume U: "U (world s)" and run: "read_text env p s = (r, s')"
  obtain b w where q: "read_file env p (world s) = (b, w)"
    by (cases "read_file env p (world s)")
  have "U w"
    using keepsD [OF assms(1) U step_read [OF q]] assms(2) by simp
  then show "U (world s') \<and> (\<exists>evs. trace s' = trace s @ evs \<and> kind_of ` set evs \<subseteq> K
      \<and> (case r of Inl e \<Rightarrow> Q e | Inr x \<Rightarrow> True))"
    using run q assms(2,3)
    by (auto simp: read_text_def record_event_def is_Exception_def split: sum.splits)
qed

lemma obeys_geteuid:
  assumes "keeps env U K" and "Query \<in> K"
  shows "obeys U K Q (os_geteuid env)"
  unfolding obeys_def
proof (rule hoareI)
  fix s r s'
  assume U: "U (world s)" and run: "os_geteuid env s = (r, s')"
  obtain b w where q: "geteuid env (world s) = (b, w)"
    by (cases "geteuid env (world s)")
  have "U w"
    using keepsD [OF assms(1) U step_geteuid [OF q]] assms(2) by simp
  then show "U (world s') \<and> (\<exists>evs. trace s' = trace s @ evs \<and> kind_of ` set evs \<subseteq> K
      \<and> (case r of Inl e \<Rightarrow> Q e | Inr x \<Rightarrow> True))"
    using run q assms(2) by (auto simp: os_geteuid_def record_event_def)
qed

lemma obeys_which:
  assumes "keeps env U K" and "Query \<in> K"
  shows "obeys U K Q (shutil_which env p)"
  unfolding obeys_def
proof (rule hoareI)
  fix s r s'
  assume U: "U (world s)" and run: "shutil_which env p s = (r, s')"
  obtain b w where q: "which env p (world s) = (b, w)"
    by (cases "which env p (world s)")
  have "U w"
    using keepsD [OF assms(1) U step_which [OF q]] assms(2) by simp
  then show "U (world s') \<and> (\<exists>evs. trace s' = trace s @ evs \<and> kind_of ` set evs \<subseteq> K
      \<and> (case r of Inl e \<Rightarrow> Q e | Inr x \<Rightarrow> True))"
    using run q assms(2) by (auto simp: shutil_which_def record_event_def)
qed

lemma obeys_try_any:
  assumes "obeys U K (\<lambda>e. True) m" and "obeys U K Q k"
  shows "obeys U K Q (try_except m (except_all k))"
  using assms by (rule obeys_try_all)

lemma obeys_try_exc:
  assumes "obeys U K is_Exception m" and "\<And>e. obeys U K Q (k e)"
  shows "obeys U K Q (try_except m (except_Exception k))"
  using assms(1) by (rule obeys_try_Exception) (use assms(2) in auto)

lemma obeys_option:
  assumes "x = None \<Longrightarrow> obeys U K Q a" and "\<And>v. x = Some v \<Longrightarrow> obeys U K Q (f v)"
  shows "obeys U K Q (case x of None \<Rightarrow> a | Some v \<Rightarrow> f v)"
  using assms by (cases x) auto

lemma obeys_prod:
  assumes "\<And>a b. p = (a, b) \<Longrightarrow> obeys U K Q (f a b)"
  shows "obeys U K Q (case p of (a, b) \<Rightarrow> f a b)"
  using assms by (cases p) auto

lemma obeys_result:
  assumes "\<And>out. x = RStr out \<Longrightarrow> obeys U K Q (f out)"
    and "x = RTrue \<Longrightarrow> obeys U K Q a" and "x = RFalse \<Longrightarrow> obeys U K Q b"
    and "x = RNone \<Longrightarrow> obeys U K Q c"
  shows "obeys U K Q (case x of RStr out \<Rightarrow> f out | RTrue \<Rightarrow> a | RFalse \<Rightarrow> b | RNone \<Rightarrow> c)"
  using assms by (cases x) auto

lemmas obeys_rules =
  obeys_ret obeys_bnd obeys_thn obeys_if obeys_for_loop obeys_for_each obeys_py_and
  obeys_try_any obeys_try_exc obeys_option obeys_prod obeys_result
  obeys_run_cmd obeys_subprocess_run obeys_exists obeys_sleep obeys_isfile obeys_stat
  obeys_getsize obeys_makedirs obeys_chmod obeys_write obeys_read obeys_geteuid obeys_which
  obeys_input

text \<open>How the kind of a shell line is computed from its first characters.\<close>

lemma startswith_Nil: "startswith s []"
  by (simp add: startswith_def)

lemma startswith_Cons: "startswith (a # s) (b # p) \<longleftrightarrow> a = b \<and> startswith s p"
  by (auto simp: startswith_def)

lemma startswith_Nil_Cons: "\<not> startswith [] (b # p)"
  by (simp add: startswith_def)

lemmas kind_simps =
  kind_of_shell_def kind_of_command_def startswith_Nil startswith_Cons startswith_Nil_Cons

subsection \<open>The kinds of events of each function\<close>

lemma is_mounted_obeys:
  assumes "keeps env U K" and "Query \<in> K"
  shows "obeys U K Q (is_mounted env path)"
  unfolding is_mounted_def
  by (intro obeys_rules; (use assms in \<open>simp add: kind_simps\<close>)?)

lemma force_unmount_obeys:
  assumes "keeps env U K" and "{Query, Wait, Kill, Unmount} \<subseteq> K"
  shows "obeys U K Q (force_unmount env path n)"
  unfolding force_unmount_def force_unmount_attempt_def
  by (intro obeys_rules is_mounted_obeys; (use assms in \<open>simp add: kind_simps\<close>)?)

lemma unmount_partitions_obeys:
  assumes "keeps env U K" and "{Query, Unmount} \<subseteq> K"
  shows "obeys U K (\<lambda>e. True) (unmount_partitions env device)"
  unfolding unmount_partitions_def
  by (intro obeys_rules obeys_raise; (use assms in \<open>simp add: kind_simps\<close>)?)

lemma unmount_all_obeys:
  assumes "keeps env U K" and "{Query, Wait, Kill, Unmount} \<subseteq> K"
  shows "obeys U K Q (unmount_all env device)"
  unfolding unmount_all_def
  by (intro obeys_rules force_unmount_obeys unmount_partitions_obeys;
      (use assms in \<open>simp add: kind_simps\<close>)?)

lemma prepare_mount_points_obeys:
  assumes "keeps env U K" and "MakeDir \<in> K"
  shows "obeys U K Q (prepare_mount_points env)"
  unfolding prepare_mount_points_def
  by (intro obeys_rules; (use assms in \<open>simp add: kind_simps\<close>)?)

lemma wait_for_partitions_obeys:
  assumes "keeps env U K" and "{Query, Wait, Rescan} \<subseteq> K"
  shows "obeys U K Q (wait_for_partitions env device timeout)"
  unfolding wait_for_partitions_def wait_step_def
  by (intro obeys_rules; (use assms in \<open>simp add: kind_simps\<close>)?)

lemma format_partition_obeys:
  assumes "keeps env U K" and "{Unmount, Wait, Format} \<subseteq> K" and "startswith mkfs ''mkfs.''"
  shows "obeys U K Q (format_partition env part mkfs timeout)"
proof -
  obtain rest where "mkfs = ''mkfs.'' @ rest"
    using assms(3) by (auto simp: startswith_iff)
  then have "kind_of_shell (mkfs @ part) = Format"
    by (simp add: kind_simps)
  then show ?thesis
    unfolding format_partition_def
    by (intro obeys_rules; (use assms(1,2) in \<open>simp add: kind_simps\<close>)?)
qed

lemma sync_obeys:
  assumes "keeps env U K" and "Flush \<in> K" and "\<And>e. is_Exception e \<Longrightarrow> Q e"
  shows "obeys U K Q (sync env)"
  unfolding sync_def
  by (intro obeys_rules; (use assms in \<open>simp add: kind_simps\<close>)?)

lemma setup_btrfs_subvolumes_obeys:
  assumes "keeps env U K"
    and "{MakeDir, Query, Wait, Kill, Unmount, Mount, Subvolume} \<subseteq> K"
  shows "obeys U K Q (setup_btrfs_subvolumes env device)"
  unfolding setup_btrfs_subvolumes_def
  by (intro obeys_rules prepare_mount_points_obeys force_unmount_obeys;
      (use assms in \<open>simp add: kind_simps\<close>)?)

lemma copy_iso_contents_obeys:
  assumes "keeps env U K"
    and "{MakeDir, Query, Wait, Kill, Unmount, Mount, Copy, Flush} \<subseteq> K"
    and "\<And>e. is_Exception e \<Longrightarrow> Q e"
  shows "obeys U K Q (copy_iso_contents env iso_path device)"
  unfolding copy_iso_contents_def
  by (intro obeys_rules prepare_mount_points_obeys force_unmount_obeys sync_obeys;
      (use assms in \<open>simp add: kind_simps rsync_cmd_def\<close>)?)

lemma patch_grub_cfg_obeys:
  assumes "keeps env U K" and "{Query, WriteFile} \<subseteq> K"
  shows "obeys U K is_Exception (patch_grub_cfg env grub_cfg boot_params)"
  unfolding patch_grub_cfg_def
  by (intro obeys_rules; (use assms in \<open>simp add: kind_simps\<close>)?)

lemma configure_persistence_obeys:
  assumes "keeps env U K"
    and "{Query, Wait, Kill, Unmount, Mount, WriteFile, Flush} \<subseteq> K"
    and "\<And>e. is_Exception e \<Longrightarrow> Q e"
  shows "obeys U K Q (configure_persistence env device)"
  unfolding configure_persistence_def Let_def
  by (intro obeys_rules force_unmount_obeys sync_obeys patch_grub_cfg_obeys;
      (use assms in \<open>simp add: kind_simps\<close>)?)

lemma install_bootloader_obeys:
  assumes "keeps env U K"
    and "{MakeDir, Query, Wait, Kill, Unmount, Mount, Bootloader} \<subseteq> K"
  shows "obeys U K Q (install_bootloader env device)"
  unfolding install_bootloader_def
  by (intro obeys_rules force_unmount_obeys prepare_mount_points_obeys;
      (use assms in \<open>simp add: kind_simps\<close>)?)

lemma create_readme_obeys:
  assumes "keeps env U K"
    and "{Query, Wait, Kill, Unmount, Mount, WriteFile} \<subseteq> K"
  shows "obeys U K Q (create_readme env readme_text device)"
  unfolding create_readme_def Let_def
  by (intro obeys_rules force_unmount_obeys;
      (use assms in \<open>simp add: kind_simps\<close>)?)

lemma create_partitions_obeys:
  assumes "keeps env U K"
    and "{Wipe, Wait, Partition, Rescan, Query, Unmount, Format} \<subseteq> K"
  shows "obeys U K Q (create_partitions env device)"
  unfolding create_partitions_def Let_def
  by (intro obeys_rules wait_for_partitions_obeys format_partition_obeys;
      (use assms in \<open>simp add: kind_simps\<close>)?)

lemma find_missing_obeys:
  assumes "keeps env U K" and "Query \<in> K"
  shows "obeys U K Q (find_missing env tools missing missing_packages)"
proof (induction tools arbitrary: missing missing_packages)
  case Nil
  show ?case by (simp add: obeys_ret)
next
  case (Cons tp rest)
  obtain tool package where tp: "tp = (tool, package)" by (cases tp)
  show ?case
    unfolding tp find_missing.simps
    by (intro obeys_rules Cons.IH; (use assms in simp)?)
qed

lemma check_requirements_obeys:
  assumes "keeps env U K" and "{Query, Install} \<subseteq> K" and "Q (SystemExit 1)"
  shows "obeys U K Q (check_requirements env)"
  unfolding check_requirements_def Let_def
  by (intro obeys_rules find_missing_obeys obeys_sys_exit;
      (use assms in \<open>simp add: kind_simps\<close>)?)

lemma pipeline_obeys:
  assumes "keeps env U K" and "- {Prompt, Other} \<subseteq> K"
    and "\<And>e. is_Exception e \<Longrightarrow> Q e" and "Q (SystemExit 1)"
  shows "obeys U K Q (pipeline env readme_text iso_path device)"
  unfolding pipeline_def
  by (intro obeys_rules obeys_raise check_requirements_obeys unmount_all_obeys
        create_partitions_obeys setup_btrfs_subvolumes_obeys copy_iso_contents_obeys
        configure_persistence_obeys install_bootloader_obeys create_readme_obeys sync_obeys;
      (use assms in \<open>auto simp: is_Exception_def\<close>)?)

lemma validate_iso_obeys:
  assumes "keeps env U K" and "Query \<in> K" and "\<And>e. is_Exception e \<Longrightarrow> Q e"
  shows "obeys U K Q (validate_iso env iso_path)"
  unfolding validate_iso_def
  by (intro obeys_rules; (use assms in simp)?)

lemma safety_line_obeys: "obeys U K Q (safety_line line)"
  unfolding safety_line_def Let_def by (intro obeys_rules)

lemma validate_device_obeys:
  assumes "keeps env U K" and "Query \<in> K"
  shows "obeys U K Q (validate_device env device)"
  unfolding validate_device_def safety_check_def
  by (intro obeys_rules obeys_raise safety_line_obeys;
      (use assms in \<open>simp add: kind_simps is_Exception_def\<close>)?)

lemma show_device_info_obeys:
  assumes "keeps env U K" and "Query \<in> K"
  shows "obeys U K Q (show_device_info env device)"
  unfolding show_device_info_def
  by (intro obeys_rules; (use assms in \<open>simp add: kind_simps\<close>)?)

lemma check_root_obeys:
  assumes "keeps env U K" and "Query \<in> K" and "Q (SystemExit 1)"
  shows "obeys U K Q (check_root env)"
  unfolding check_root_def
  by (intro obeys_rules obeys_sys_exit; (use assms in simp)?)

section \<open>The sweep never raises\<close>




end
